theory Spec2Isabelle
  imports Complex_Main "HOL-Library.Sublist"
begin

section \<open>Python strings\<close>

text \<open>
  A Python \<^verbatim>\<open>str\<close> (and a \<^verbatim>\<open>bytes\<close> body) is a \<^typ>\<open>string\<close>. The string methods
  the crawler calls are written out. \<^verbatim>\<open>str.lower\<close> is modelled on the ASCII letters,
  which is all the crawler's comparisons against \<^verbatim>\<open>'.pdf'\<close>, \<^verbatim>\<open>'.doc'\<close>, \<^verbatim>\<open>'.docx'\<close>
  and \<^verbatim>\<open>'text/html'\<close> can observe.
\<close>

definition lower_char :: "char \<Rightarrow> char" where
  "lower_char c =
     (case map_of (zip ''ABCDEFGHIJKLMNOPQRSTUVWXYZ'' ''abcdefghijklmnopqrstuvwxyz'') c of
        None \<Rightarrow> c
      | Some l \<Rightarrow> l)"

definition lower :: "string \<Rightarrow> string" where
  "lower s = map lower_char s"

text \<open>\<^verbatim>\<open>s.startswith(p)\<close>\<close>

fun startswith :: "string \<Rightarrow> string \<Rightarrow> bool" where
  "startswith s [] = True"
| "startswith [] (p # ps) = False"
| "startswith (c # s) (p # ps) = (c = p \<and> startswith s ps)"

text \<open>\<^verbatim>\<open>sub in s\<close>\<close>

fun str_contains :: "string \<Rightarrow> string \<Rightarrow> bool" where
  "str_contains [] sub = (sub = [])"
| "str_contains (c # s) sub = (startswith (c # s) sub \<or> str_contains s sub)"

text \<open>\<^verbatim>\<open>s.rstrip(chars)\<close>: every trailing character that is in \<open>chars\<close> is removed.\<close>

definition rstrip :: "string \<Rightarrow> string \<Rightarrow> string" where
  "rstrip s chars = rev (dropWhile (\<lambda>c. c \<in> set chars) (rev s))"

text \<open>\<^verbatim>\<open>s.split('#')[0]\<close>\<close>

definition split_hash_first :: "string \<Rightarrow> string" where
  "split_hash_first s = takeWhile (\<lambda>c. c \<noteq> CHR ''#'') s"

text \<open>\<^verbatim>\<open>s.replace(':', '_')\<close>\<close>

definition replace_colon :: "string \<Rightarrow> string" where
  "replace_colon s = map (\<lambda>c. if c = CHR '':'' then CHR ''_'' else c) s"

text \<open>\<^verbatim>\<open>any(ext in url.lower() for ext in ['.pdf', '.doc', '.docx'])\<close>\<close>

definition has_file_ext :: "string \<Rightarrow> bool" where
  "has_file_ext url = list_ex (\<lambda>ext. str_contains (lower url) ext) [''.pdf'', ''.doc'', ''.docx'']"

section \<open>The world outside the crawler\<close>

text \<open>
  Exceptions that reach the crawler's own code: \<^verbatim>\<open>ValueError\<close> from \<^verbatim>\<open>urllib.parse\<close>,
  \<^verbatim>\<open>OSError\<close> from the file system.
\<close>

datatype error = ValueError | OSError

text \<open>The six components of \<^verbatim>\<open>urllib.parse.ParseResult\<close>.\<close>

record parse_result =
  scheme :: string
  netloc :: string
  path :: string
  params :: string
  query :: string
  fragment :: string

text \<open>
  What one \<^verbatim>\<open>session.get(url, timeout=30, allow_redirects=True)\<close> does: it returns a response
  (body, status code, the \<^verbatim>\<open>Content-Type\<close> header if there is one) or raises
  \<^verbatim>\<open>requests.exceptions.Timeout\<close>, \<^verbatim>\<open>ConnectionError\<close>, or another \<^verbatim>\<open>RequestException\<close>.
\<close>

datatype http_outcome =
    Response string int "string option"
  | Timeout
  | ConnectionError
  | RequestException

text \<open>
  The effects of a run, in the order the code performs them. \<open>Pop\<close> is \<^verbatim>\<open>queue.pop(0)\<close>
  with the entry it returns, \<open>Add_visited\<close> is \<^verbatim>\<open>visited_urls.add(url)\<close>, \<open>Get\<close> is one
  \<^verbatim>\<open>session.get\<close>, \<open>Fetch_page\<close> is the return of the call \<^verbatim>\<open>fetch_page(url)\<close> in \<^verbatim>\<open>crawl_seed\<close>,
  with the depth of the entry being processed and whether a body came back, \<open>Sleep\<close> is
  \<^verbatim>\<open>time.sleep\<close> with its argument in seconds, \<open>Robots_read\<close> is \<^verbatim>\<open>rp.read()\<close>; the last three
  are file-system calls with their path.
\<close>

datatype event =
    Pop string int string
  | Add_visited string
  | Get string
  | Fetch_page string int bool
  | Sleep real
  | Robots_read string
  | Mkdir string
  | Write_file string
  | Append_file string

text \<open>The dictionary that \<^verbatim>\<open>log_metadata\<close> dumps as one JSON line.\<close>

record metadata =
  md_url :: string
  md_status_code :: int
  md_content_type :: string
  md_saved_path :: string
  md_crawl_date :: string
  md_depth :: int
  md_parent_url :: string
  md_content_length :: int

text \<open>
  Everything the crawler calls but does not define. The library functions are functions of
  their arguments; \<open>urlparse\<close> and \<open>urljoin\<close> may raise \<^verbatim>\<open>ValueError\<close>. \<open>find_all_a_href\<close> is
  \<^verbatim>\<open>BeautifulSoup(html, 'html.parser').find_all('a', href=True)\<close> followed by \<^verbatim>\<open>tag['href']\<close>:
  the \<^verbatim>\<open>href\<close> values in document order, or an exception. \<open>set_iter\<close> proposes the order in
  which Python iterates a set of strings. The remaining fields answer a call made at a
  given moment (the number of effects performed so far), so the network, the clock, the
  random generator and the file system may answer differently each time. \<open>robots_read\<close>
  gives the policy \<^verbatim>\<open>rp.can_fetch(user_agent, url)\<close> of the parser after a successful
  \<^verbatim>\<open>rp.read()\<close>, or \<open>None\<close> when \<^verbatim>\<open>rp.read()\<close> raises; \<open>fs_ok\<close> tells whether a file-system call
  on a path succeeds.
\<close>

record world =
  urlparse :: "string \<Rightarrow> error + parse_result"
  urljoin :: "string \<Rightarrow> string \<Rightarrow> error + string"
  find_all_a_href :: "string \<Rightarrow> error + string list"
  set_iter :: "string list \<Rightarrow> string list"
  sha1_hexdigest :: "string \<Rightarrow> string"
  splitext_ext :: "string \<Rightarrow> string"
  session_get :: "nat \<Rightarrow> string \<Rightarrow> http_outcome"
  robots_read :: "nat \<Rightarrow> string \<Rightarrow> (string \<Rightarrow> string \<Rightarrow> bool) option"
  random_uniform :: "nat \<Rightarrow> real \<Rightarrow> real \<Rightarrow> real"
  now_strftime :: "nat \<Rightarrow> string"
  now_isoformat :: "nat \<Rightarrow> string"
  fs_ok :: "nat \<Rightarrow> string \<Rightarrow> bool"

section \<open>The crawler\<close>

text \<open>The command-line arguments the crawler reads (\<^verbatim>\<open>verbose\<close> only switches printing).\<close>

record args =
  depth :: int
  max_pages :: int
  delay_min :: real
  delay_max :: real
  user_agent :: string

text \<open>
  The fields of \<^verbatim>\<open>Crawler\<close> that the crawl reads and writes, followed by what the run has
  written to disk (\<open>files\<close> by path, the lines of \<^verbatim>\<open>index.jsonl\<close>) and the effects performed
  so far. A cached robots parser is \<open>Some policy\<close>, a cached \<^verbatim>\<open>None\<close> is \<open>None\<close>. The progress
  bar and \<^verbatim>\<open>log\<close> only print and are left out.
\<close>

record crawler =
  visited_urls :: "string set"
  robots_cache :: "string \<rightharpoonup> (string \<Rightarrow> string \<Rightarrow> bool) option"
  pages_crawled :: int
  files :: "string \<rightharpoonup> string"
  index_jsonl :: "metadata list"
  trace :: "event list"

definition init_crawler :: crawler where
  "init_crawler = \<lparr>visited_urls = {}, robots_cache = Map.empty, pages_crawled = 0,
     files = Map.empty, index_jsonl = [], trace = []\<rparr>"

definition clock :: "crawler \<Rightarrow> nat" where
  "clock s = length (trace s)"

definition emit :: "event \<Rightarrow> crawler \<Rightarrow> crawler" where
  "emit e s = s\<lparr>trace := trace s @ [e]\<rparr>"

subsection \<open>\<^verbatim>\<open>get_robots_parser\<close> and \<^verbatim>\<open>can_fetch\<close>\<close>

definition get_robots_parser ::
  "world \<Rightarrow> string \<Rightarrow> crawler \<Rightarrow> (error + (string \<Rightarrow> string \<Rightarrow> bool) option) \<times> crawler" where
  "get_robots_parser w url s =
     (case urlparse w url of
        Inl e \<Rightarrow> (Inl e, s)
      | Inr parsed \<Rightarrow>
          let base_url = scheme parsed @ ''://'' @ netloc parsed in
          (case robots_cache s base_url of
             Some rp \<Rightarrow> (Inr rp, s)
           | None \<Rightarrow>
               (case urljoin w base_url ''/robots.txt'' of
                  Inl e \<Rightarrow> (Inl e, s)
                | Inr robots_url \<Rightarrow>
                    (case robots_read w (clock s) robots_url of
                       Some policy \<Rightarrow>
                         (Inr (Some policy),
                          emit (Robots_read robots_url)
                            (s\<lparr>robots_cache := (robots_cache s)(base_url \<mapsto> Some policy)\<rparr>))
                     | None \<Rightarrow>
                         (Inr None,
                          emit (Robots_read robots_url)
                            (s\<lparr>robots_cache := (robots_cache s)(base_url \<mapsto> None)\<rparr>))))))"

definition can_fetch ::
  "world \<Rightarrow> args \<Rightarrow> string \<Rightarrow> crawler \<Rightarrow> (error + bool) \<times> crawler" where
  "can_fetch w a url s =
     (case get_robots_parser w url s of
        (Inl e, s') \<Rightarrow> (Inl e, s')
      | (Inr (Some policy), s') \<Rightarrow> (Inr (policy (user_agent a) url), s')
      | (Inr None, s') \<Rightarrow> (Inr True, s'))"

subsection \<open>\<^verbatim>\<open>fetch_page\<close>\<close>

text \<open>\<^verbatim>\<open>if attempt < 2: time.sleep(2 ** attempt)\<close>\<close>

definition backoff :: "nat \<Rightarrow> crawler \<Rightarrow> crawler" where
  "backoff attempt s = (if attempt < 2 then emit (Sleep (2 ^ attempt)) s else s)"

text \<open>
  The body of \<^verbatim>\<open>for attempt in range(3)\<close>, over the attempts still to make; the empty list
  is the code after the loop.
\<close>

fun fetch_attempts ::
  "world \<Rightarrow> string \<Rightarrow> nat list \<Rightarrow> crawler \<Rightarrow> (string option \<times> int \<times> string \<times> int) \<times> crawler" where
  "fetch_attempts w url [] s = ((None, 0, [], 0), s)"
| "fetch_attempts w url (attempt # rest) s =
     (case session_get w (clock s) url of
        Response content status_code header \<Rightarrow>
          ((Some content, status_code,
            lower (case header of None \<Rightarrow> [] | Some v \<Rightarrow> v),
            int (length content)),
           emit (Get url) s)
      | Timeout \<Rightarrow> fetch_attempts w url rest (backoff attempt (emit (Get url) s))
      | ConnectionError \<Rightarrow> fetch_attempts w url rest (backoff attempt (emit (Get url) s))
      | RequestException \<Rightarrow> ((None, 0, [], 0), emit (Get url) s))"

definition fetch_page ::
  "world \<Rightarrow> string \<Rightarrow> crawler \<Rightarrow> (string option \<times> int \<times> string \<times> int) \<times> crawler" where
  "fetch_page w url s = fetch_attempts w url [0..<3] s"

subsection \<open>\<^verbatim>\<open>parse_links\<close>\<close>

text \<open>
  The set \<^verbatim>\<open>links\<close> is kept as a list without duplicates, in insertion order.
  \<open>collect_links\<close> is the loop over the anchors: an exception of \<^verbatim>\<open>urljoin\<close> leaves the loop
  through the \<^verbatim>\<open>except Exception\<close> clause, and the links added so far are returned.
\<close>

definition set_add :: "string list \<Rightarrow> string \<Rightarrow> string list" where
  "set_add links x = (if x \<in> set links then links else links @ [x])"

fun collect_links :: "world \<Rightarrow> string \<Rightarrow> string list \<Rightarrow> string list \<Rightarrow> string list" where
  "collect_links w base_url [] links = links"
| "collect_links w base_url (href # hrefs) links =
     (case urljoin w base_url href of
        Inl e \<Rightarrow> links
      | Inr joined \<Rightarrow>
          let absolute_url = split_hash_first joined in
          collect_links w base_url hrefs
            (if absolute_url \<noteq> [] then set_add links absolute_url else links))"

definition parse_links :: "world \<Rightarrow> string \<Rightarrow> string \<Rightarrow> string list" where
  "parse_links w html_content base_url =
     (case find_all_a_href w html_content of
        Inl e \<Rightarrow> []
      | Inr hrefs \<Rightarrow> collect_links w base_url hrefs [])"

subsection \<open>\<^verbatim>\<open>should_follow\<close>\<close>

definition should_follow :: "world \<Rightarrow> string \<Rightarrow> string \<Rightarrow> error + bool" where
  "should_follow w url seed_url =
     (case urlparse w url of
        Inl e \<Rightarrow> Inl e
      | Inr url_parsed \<Rightarrow>
          (case urlparse w seed_url of
             Inl e \<Rightarrow> Inl e
           | Inr seed_parsed \<Rightarrow>
               if netloc url_parsed \<noteq> netloc seed_parsed then Inr False
               else
                 let url_path = path url_parsed;
                     seed_path = path seed_parsed;
                     seed_path_prefix = rstrip seed_path ''/''
                 in if seed_path_prefix = [] \<or> seed_path_prefix = ''/'' then Inr True
                    else if \<not> startswith url_path seed_path_prefix then Inr False
                    else Inr True))"

subsection \<open>\<^verbatim>\<open>save_raw\<close> and \<^verbatim>\<open>log_metadata\<close>\<close>

definition raw_dir :: string where
  "raw_dir = ''data/raw''"

definition raw_files_dir :: string where
  "raw_files_dir = ''data/raw_files''"

definition index_file :: string where
  "index_file = ''data/raw/index.jsonl''"

text \<open>
  The \<^verbatim>\<open>try\<close> block of \<^verbatim>\<open>save_raw\<close>: \<^verbatim>\<open>open(filepath, 'wb')\<close> and \<^verbatim>\<open>f.write(content)\<close>. Any
  exception is caught and the empty string returned; a failed write records no content
  under the path.
\<close>

definition write_content :: "world \<Rightarrow> string \<Rightarrow> string \<Rightarrow> crawler \<Rightarrow> string \<times> crawler" where
  "write_content w filepath content s =
     (if fs_ok w (clock s) filepath
      then (filepath, emit (Write_file filepath) (s\<lparr>files := (files s)(filepath \<mapsto> content)\<rparr>))
      else ([], emit (Write_file filepath) s))"

text \<open>
  \<^verbatim>\<open>save_raw\<close>. The two \<^verbatim>\<open>mkdir(parents=True, exist_ok=True)\<close> calls and \<^verbatim>\<open>urlparse\<close> stand
  before the \<^verbatim>\<open>try\<close> block, so their exceptions leave the function.
\<close>

definition save_raw ::
  "world \<Rightarrow> string \<Rightarrow> string \<Rightarrow> bool \<Rightarrow> crawler \<Rightarrow> (error + string) \<times> crawler" where
  "save_raw w content url is_file s =
     (let url_hash = sha1_hexdigest w url in
      if is_file then
        (case urlparse w url of
           Inl e \<Rightarrow> (Inl e, s)
         | Inr parsed \<Rightarrow>
             let ext = lower (splitext_ext w (path parsed));
                 ext = (if ext = [] then ''.bin'' else ext)
             in if \<not> fs_ok w (clock s) raw_files_dir
                then (Inl OSError, emit (Mkdir raw_files_dir) s)
                else
                  (case write_content w (raw_files_dir @ ''/'' @ url_hash @ ext) content
                          (emit (Mkdir raw_files_dir) s) of
                     (saved_path, s') \<Rightarrow> (Inr saved_path, s')))
      else
        let date_str = now_strftime w (clock s);
            date_dir = raw_dir @ ''/'' @ date_str
        in if \<not> fs_ok w (clock s) date_dir
           then (Inl OSError, emit (Mkdir date_dir) s)
           else
             (case urlparse w url of
                Inl e \<Rightarrow> (Inl e, emit (Mkdir date_dir) s)
              | Inr parsed \<Rightarrow>
                  let hostname = replace_colon (netloc parsed) in
                  (case write_content w (date_dir @ ''/'' @ hostname @ ''_'' @ url_hash @ ''.html'')
                          content (emit (Mkdir date_dir) s) of
                     (saved_path, s') \<Rightarrow> (Inr saved_path, s'))))"

text \<open>
  \<^verbatim>\<open>log_metadata\<close>: the directory creation and the append are both inside the \<^verbatim>\<open>try\<close>
  block, so nothing leaves the function.
\<close>

definition log_metadata ::
  "world \<Rightarrow> string \<Rightarrow> int \<Rightarrow> string \<Rightarrow> string \<Rightarrow> int \<Rightarrow> string \<Rightarrow> int \<Rightarrow> crawler \<Rightarrow> crawler" where
  "log_metadata w url status_code content_type saved_path d parent_url content_length s =
     (let md = \<lparr>md_url = url, md_status_code = status_code, md_content_type = content_type,
                md_saved_path = saved_path, md_crawl_date = now_isoformat w (clock s),
                md_depth = d, md_parent_url = parent_url, md_content_length = content_length\<rparr>
      in if \<not> fs_ok w (clock s) raw_dir then emit (Mkdir raw_dir) s
         else
           let s1 = emit (Mkdir raw_dir) s in
           if fs_ok w (clock s1) index_file
           then emit (Append_file index_file) (s1\<lparr>index_jsonl := index_jsonl s1 @ [md]\<rparr>)
           else emit (Append_file index_file) s1)"

subsection \<open>\<^verbatim>\<open>crawl_seed\<close>\<close>

type_synonym entry = "string \<times> int \<times> string"

text \<open>
  \<^verbatim>\<open>for link in links\<close> iterates a set, in an order Python does not fix: the order the world
  proposes is taken when it enumerates the set, the insertion order otherwise.
\<close>

definition iterate_set :: "world \<Rightarrow> string list \<Rightarrow> string list" where
  "iterate_set w links =
     (let order = set_iter w links
      in if distinct order \<and> set order = set links then order else links)"

text \<open>
  The loop that adds links to the queue. \<^verbatim>\<open>and\<close> evaluates \<^verbatim>\<open>should_follow\<close> only for a
  link that is not visited; its \<^verbatim>\<open>ValueError\<close> leaves \<^verbatim>\<open>crawl_seed\<close>.
\<close>

fun enqueue_links ::
  "world \<Rightarrow> string set \<Rightarrow> string \<Rightarrow> string \<Rightarrow> int \<Rightarrow> string list \<Rightarrow> entry list \<Rightarrow> error + entry list" where
  "enqueue_links w visited seed_url url d [] queue = Inr queue"
| "enqueue_links w visited seed_url url d (link # links) queue =
     (if link \<notin> visited then
        (case should_follow w link seed_url of
           Inl e \<Rightarrow> Inl e
         | Inr follow \<Rightarrow>
             if follow then
               (if has_file_ext link
                then enqueue_links w visited seed_url url d links (queue @ [(link, d, url)])
                else enqueue_links w visited seed_url url d links (queue @ [(link, d + 1, url)]))
             else enqueue_links w visited seed_url url d links queue)
      else enqueue_links w visited seed_url url d links queue)"

text \<open>
  The rest of the loop body once \<^verbatim>\<open>fetch_page\<close> has returned a body: count the page, save
  it as a file or as HTML, log its metadata and, for HTML below the maximum depth, add its
  links to the queue.
\<close>

definition process_content ::
  "world \<Rightarrow> args \<Rightarrow> string \<Rightarrow> entry \<Rightarrow> entry list \<Rightarrow> string \<times> int \<times> string \<times> int \<Rightarrow>
     crawler \<Rightarrow> (error + entry list) \<times> crawler" where
  "process_content w a seed_url e queue page s =
     (case (e, page) of ((url, d, parent_url), (content, status_code, content_type, content_length)) \<Rightarrow>
        let s1 = s\<lparr>pages_crawled := pages_crawled s + 1\<rparr>;
            is_html = str_contains content_type ''text/html'';
            is_file = has_file_ext url
        in if is_file \<or> \<not> is_html then
             (case save_raw w content url True s1 of
                (Inl err, s2) \<Rightarrow> (Inl err, s2)
              | (Inr saved_path, s2) \<Rightarrow>
                  (Inr queue,
                   log_metadata w url status_code content_type saved_path d parent_url
                     content_length s2))
           else
             (case save_raw w content url False s1 of
                (Inl err, s2) \<Rightarrow> (Inl err, s2)
              | (Inr saved_path, s2) \<Rightarrow>
                  let s3 = log_metadata w url status_code content_type saved_path d parent_url
                             content_length s2
                  in if d < depth a then
                       (case enqueue_links w (visited_urls s3) seed_url url d
                               (iterate_set w (parse_links w content url)) queue of
                          Inl err \<Rightarrow> (Inl err, s3)
                        | Inr queue' \<Rightarrow> (Inr queue', s3))
                     else (Inr queue, s3)))"

text \<open>
  One pass through the body of \<^verbatim>\<open>while queue and (...)\<close>, for a queue that is not empty.
  A \<^verbatim>\<open>continue\<close> returns the queue without its head.
\<close>

definition crawl_seed_body ::
  "world \<Rightarrow> args \<Rightarrow> string \<Rightarrow> entry list \<Rightarrow> crawler \<Rightarrow> (error + entry list) \<times> crawler" where
  "crawl_seed_body w a seed_url queue0 s0 =
     (case queue0 of
        [] \<Rightarrow> (Inr [], s0)
      | (url, d, parent_url) # queue \<Rightarrow>
          let s1 = emit (Pop url d parent_url) s0 in
          if url \<in> visited_urls s1 then (Inr queue, s1)
          else if d > depth a then (Inr queue, s1)
          else
            (case can_fetch w a url s1 of
               (Inl err, s2) \<Rightarrow> (Inl err, s2)
             | (Inr allowed, s2) \<Rightarrow>
                 if \<not> allowed then (Inr queue, s2)
                 else
                   let s3 = emit (Add_visited url) (s2\<lparr>visited_urls := insert url (visited_urls s2)\<rparr>);
                       s4 = (if pages_crawled s3 > 0
                             then emit (Sleep (random_uniform w (clock s3) (delay_min a) (delay_max a))) s3
                             else s3)
                   in (case fetch_page w url s4 of
                         ((None, status_code, content_type, content_length), s5) \<Rightarrow>
                           (Inr queue, emit (Fetch_page url d False) s5)
                       | ((Some content, status_code, content_type, content_length), s5) \<Rightarrow>
                           process_content w a seed_url (url, d, parent_url) queue
                             (content, status_code, content_type, content_length)
                             (emit (Fetch_page url d True) s5))))"

subsection \<open>\<^verbatim>\<open>run\<close>\<close>

text \<open>
  Where the run stands: in the \<^verbatim>\<open>for seed in seeds\<close> loop of \<^verbatim>\<open>run\<close> with the seeds still to
  come, at the test of the \<^verbatim>\<open>while\<close> loop of \<^verbatim>\<open>crawl_seed\<close> with its queue (and the seeds still
  to come), returned, or left by an exception. \<open>step\<close> performs one test of a loop together
  with one pass through its body; \<open>run_steps\<close> is the run after so many steps, from the seeds
  that \<^verbatim>\<open>read_seeds\<close> returned.
\<close>

datatype control =
    Run_loop "string list"
  | Crawl_seed string "entry list" "string list"
  | Returned
  | Raised error

fun step :: "world \<Rightarrow> args \<Rightarrow> control \<times> crawler \<Rightarrow> control \<times> crawler" where
  "step w a (Run_loop [], s) = (Returned, s)"
| "step w a (Run_loop (seed # seeds), s) =
     (if max_pages a > 0 \<and> pages_crawled s \<ge> max_pages a then (Returned, s)
      else (Crawl_seed seed [(seed, 0, [])] seeds, s))"
| "step w a (Crawl_seed seed_url queue seeds, s) =
     (if queue \<noteq> [] \<and> (max_pages a = 0 \<or> pages_crawled s < max_pages a) then
        (case crawl_seed_body w a seed_url queue s of
           (Inl err, s') \<Rightarrow> (Raised err, s')
         | (Inr queue', s') \<Rightarrow> (Crawl_seed seed_url queue' seeds, s'))
      else (Run_loop seeds, s))"
| "step w a (Returned, s) = (Returned, s)"
| "step w a (Raised err, s) = (Raised err, s)"

primrec run_steps :: "world \<Rightarrow> args \<Rightarrow> string list \<Rightarrow> nat \<Rightarrow> control \<times> crawler" where
  "run_steps w a seeds 0 = (Run_loop seeds, init_crawler)"
| "run_steps w a seeds (Suc n) = step w a (run_steps w a seeds n)"

section \<open>A reference world\<close>

text \<open>
  For running the crawler on concrete inputs: \<^verbatim>\<open>urllib.parse\<close> as CPython 3.11 defines it
  (\<^verbatim>\<open>urlsplit\<close>, \<^verbatim>\<open>urlparse\<close>, \<^verbatim>\<open>urlunparse\<close>, \<^verbatim>\<open>urljoin\<close>) and \<^verbatim>\<open>os.path.splitext\<close>. Not modelled
  are the stripping of leading control characters and spaces, the removal of tab and
  newline characters, the validation of a bracketed host and the NFKC check of the
  netloc; the model is the library on URLs of printable ASCII characters without square
  brackets, and raises \<^verbatim>\<open>ValueError\<close> on unbalanced brackets as the library does.
\<close>

definition scheme_chars :: string where
  "scheme_chars = ''abcdefghijklmnopqrstuvwxyzABCDEFGHIJKLMNOPQRSTUVWXYZ0123456789+-.''"

definition uses_relative :: "string list" where
  "uses_relative = ['''', ''ftp'', ''http'', ''gopher'', ''nntp'', ''imap'', ''wais'', ''file'',
     ''https'', ''shttp'', ''mms'', ''prospero'', ''rtsp'', ''rtsps'', ''rtspu'', ''sftp'',
     ''svn'', ''svn+ssh'', ''ws'', ''wss'']"

definition uses_netloc :: "string list" where
  "uses_netloc = ['''', ''ftp'', ''http'', ''gopher'', ''nntp'', ''telnet'', ''imap'', ''wais'',
     ''file'', ''mms'', ''https'', ''shttp'', ''snews'', ''prospero'', ''rtsp'', ''rtsps'',
     ''rtspu'', ''rsync'', ''svn'', ''svn+ssh'', ''sftp'', ''nfs'', ''git'', ''git+ssh'',
     ''ws'', ''wss'']"

definition uses_params :: "string list" where
  "uses_params = ['''', ''ftp'', ''hdl'', ''prospero'', ''http'', ''imap'', ''https'', ''shttp'',
     ''rtsp'', ''rtsps'', ''rtspu'', ''sip'', ''sips'', ''mms'', ''sftp'', ''tel'']"

text \<open>\<^verbatim>\<open>s.partition(c)\<close> without the separator: the part before the first \<open>c\<close>, and the part
  after it when there is one.\<close>

definition partition_at :: "char \<Rightarrow> string \<Rightarrow> string \<times> string option" where
  "partition_at c s =
     (takeWhile (\<lambda>x. x \<noteq> c) s,
      case dropWhile (\<lambda>x. x \<noteq> c) s of [] \<Rightarrow> None | x # rest \<Rightarrow> Some rest)"

text \<open>\<^verbatim>\<open>s.split(c)\<close>\<close>

fun split_char :: "char \<Rightarrow> string \<Rightarrow> string list" where
  "split_char c [] = [[]]"
| "split_char c (x # xs) =
     (if x = c then [] # split_char c xs
      else (case split_char c xs of [] \<Rightarrow> [[x]] | y # ys \<Rightarrow> (x # y) # ys))"

text \<open>\<^verbatim>\<open>c.join(parts)\<close>\<close>

fun join_char :: "char \<Rightarrow> string list \<Rightarrow> string" where
  "join_char c [] = []"
| "join_char c [p] = p"
| "join_char c (p # q # ps) = p @ c # join_char c (q # ps)"

definition py_urlsplit ::
  "string \<Rightarrow> string \<Rightarrow> error + string \<times> string \<times> string \<times> string \<times> string" where
  "py_urlsplit url0 default_scheme =
     (let (sch, url1) =
            (case partition_at CHR '':'' url0 of
               (pre, None) \<Rightarrow> (default_scheme, url0)
             | (pre, Some rest) \<Rightarrow>
                 if pre \<noteq> [] \<and> hd pre \<in> set (take 52 scheme_chars) \<and> list_all (\<lambda>c. c \<in> set scheme_chars) pre
                 then (lower pre, rest)
                 else (default_scheme, url0));
          (nl, url2) =
            (if take 2 url1 = ''//''
             then (takeWhile (\<lambda>c. c \<notin> set ''/?#'') (drop 2 url1),
                   dropWhile (\<lambda>c. c \<notin> set ''/?#'') (drop 2 url1))
             else ([], url1))
      in if (CHR ''['' \<in> set nl \<and> CHR '']'' \<notin> set nl) \<or> (CHR '']'' \<in> set nl \<and> CHR ''['' \<notin> set nl)
         then Inl ValueError
         else
           let (url3, frag) = (case partition_at CHR ''#'' url2 of (u, None) \<Rightarrow> (u, []) | (u, Some f) \<Rightarrow> (u, f));
               (url4, qry) = (case partition_at CHR ''?'' url3 of (u, None) \<Rightarrow> (u, []) | (u, Some q) \<Rightarrow> (u, q))
           in Inr (sch, nl, url4, qry, frag))"

definition py_splitparams :: "string \<Rightarrow> string \<times> string" where
  "py_splitparams url =
     (let seg = rev (takeWhile (\<lambda>c. c \<noteq> CHR ''/'') (rev url));
          dir = rev (dropWhile (\<lambda>c. c \<noteq> CHR ''/'') (rev url))
      in case partition_at CHR '';'' seg of
           (pre, None) \<Rightarrow> (url, [])
         | (pre, Some p) \<Rightarrow> (dir @ pre, p))"

definition py_urlparse_scheme :: "string \<Rightarrow> string \<Rightarrow> error + parse_result" where
  "py_urlparse_scheme url default_scheme =
     (case py_urlsplit url default_scheme of
        Inl e \<Rightarrow> Inl e
      | Inr (sch, nl, u, qry, frag) \<Rightarrow>
          let (u', prm) = (if sch \<in> set uses_params \<and> CHR '';'' \<in> set u then py_splitparams u else (u, []))
          in Inr \<lparr>scheme = sch, netloc = nl, path = u', params = prm, query = qry, fragment = frag\<rparr>)"

definition py_urlparse :: "string \<Rightarrow> error + parse_result" where
  "py_urlparse url = py_urlparse_scheme url []"

definition py_urlunsplit :: "string \<Rightarrow> string \<Rightarrow> string \<Rightarrow> string \<Rightarrow> string \<Rightarrow> string" where
  "py_urlunsplit sch nl url qry frag =
     (let url1 = (if nl \<noteq> [] \<or> (sch \<noteq> [] \<and> sch \<in> set uses_netloc) \<or> take 2 url = ''//''
                  then ''//'' @ nl @ (if url \<noteq> [] \<and> take 1 url \<noteq> ''/'' then ''/'' @ url else url)
                  else url);
          url2 = (if sch \<noteq> [] then sch @ '':'' @ url1 else url1);
          url3 = (if qry \<noteq> [] then url2 @ ''?'' @ qry else url2)
      in if frag \<noteq> [] then url3 @ ''#'' @ frag else url3)"

definition py_urlunparse :: "parse_result \<Rightarrow> string" where
  "py_urlunparse p =
     py_urlunsplit (scheme p) (netloc p)
       (if params p \<noteq> [] then path p @ '';'' @ params p else path p) (query p) (fragment p)"

text \<open>The loop of \<^verbatim>\<open>urljoin\<close> that removes dot segments.\<close>

fun resolve_segments :: "string list \<Rightarrow> string list \<Rightarrow> string list" where
  "resolve_segments [] resolved = resolved"
| "resolve_segments (seg # segs) resolved =
     (if seg = ''..'' then resolve_segments segs (butlast resolved)
      else if seg = ''.'' then resolve_segments segs resolved
      else resolve_segments segs (resolved @ [seg]))"

definition py_urljoin :: "string \<Rightarrow> string \<Rightarrow> error + string" where
  "py_urljoin base url =
     (if base = [] then Inr url
      else if url = [] then Inr base
      else
        (case py_urlparse_scheme base [] of
           Inl e \<Rightarrow> Inl e
         | Inr b \<Rightarrow>
             (case py_urlparse_scheme url (scheme b) of
                Inl e \<Rightarrow> Inl e
              | Inr u \<Rightarrow>
                  if scheme u \<noteq> scheme b \<or> scheme u \<notin> set uses_relative then Inr url
                  else if scheme u \<in> set uses_netloc \<and> netloc u \<noteq> [] then Inr (py_urlunparse u)
                  else
                    let nl = (if scheme u \<in> set uses_netloc then netloc b else netloc u) in
                    if path u = [] \<and> params u = [] then
                      Inr (py_urlunparse (u\<lparr>netloc := nl, path := path b, params := params b,
                             query := (if query u = [] then query b else query u)\<rparr>))
                    else
                      let base_parts = split_char CHR ''/'' (path b);
                          base_parts = (if last base_parts \<noteq> [] then butlast base_parts else base_parts);
                          segments =
                            (if take 1 (path u) = ''/'' then split_char CHR ''/'' (path u)
                             else
                               let segs = base_parts @ split_char CHR ''/'' (path u)
                               in if length segs < 2 then segs
                                  else hd segs # filter (\<lambda>x. x \<noteq> []) (butlast (tl segs)) @ [last segs]);
                          resolved = resolve_segments segments [];
                          resolved = (if last segments = ''.'' \<or> last segments = ''..''
                                      then resolved @ [[]] else resolved);
                          joined = join_char CHR ''/'' resolved
                      in Inr (py_urlunparse (u\<lparr>netloc := nl,
                                path := (if joined = [] then ''/'' else joined)\<rparr>)))))"

definition py_splitext_ext :: "string \<Rightarrow> string" where
  "py_splitext_ext p =
     (let name = rev (takeWhile (\<lambda>c. c \<noteq> CHR ''/'') (rev p));
          ext = rev (takeWhile (\<lambda>c. c \<noteq> CHR ''.'') (rev name));
          stem = rev (dropWhile (\<lambda>c. c \<noteq> CHR ''.'') (rev name))
      in if stem = [] \<or> list_all (\<lambda>c. c = CHR ''.'') stem then []
         else CHR ''.'' # ext)"

text \<open>
  A small site. \<^verbatim>\<open>https://h/docs/\<close> links to \<^verbatim>\<open>b\<close>, \<^verbatim>\<open>c\<close>, \<^verbatim>\<open>r.pdf\<close>, \<^verbatim>\<open>/blog/y\<close>, \<^verbatim>\<open>https://o/z\<close> and
  \<^verbatim>\<open>#top\<close>; \<^verbatim>\<open>https://h/docs/b\<close> links to \<^verbatim>\<open>c\<close>; \<^verbatim>\<open>https://h/docs/c\<close> has no links;
  \<^verbatim>\<open>https://h/docs/r.pdf\<close> is a PDF. Every other request raises a \<^verbatim>\<open>RequestException\<close>
  (as \<^verbatim>\<open>requests\<close> does for \<^verbatim>\<open>ftp://h/x\<close>, a scheme without connection adapter). No host
  serves a \<^verbatim>\<open>robots.txt\<close>, the file system accepts every call, sets are iterated in
  insertion order, and the digest is a stand-in for SHA-1 (the letters and digits of the
  URL). The HTML parser knows these pages and the page of the link-extraction example of
  the specification, with the anchors \<^verbatim>\<open>/a\<close>, \<^verbatim>\<open>/b\<close>, \<^verbatim>\<open>https://h/c\<close> and \<^verbatim>\<open>#frag\<close>.
\<close>

definition ex_find_all_a_href :: "string \<Rightarrow> error + string list" where
  "ex_find_all_a_href html =
     (if html = ''<a href=b><a href=c><a href=r.pdf><a href=/blog/y><a href=https://o/z><a href=#top>''
      then Inr [''b'', ''c'', ''r.pdf'', ''/blog/y'', ''https://o/z'', ''#top'']
      else if html = ''<a href=c>'' then Inr [''c'']
      else if html = ''<a href=/a><a href=/b><a href=https://h/c><a href=#frag>''
      then Inr [''/a'', ''/b'', ''https://h/c'', ''#frag'']
      else Inr [])"

definition ex_digest :: "string \<Rightarrow> string" where
  "ex_digest url = filter (\<lambda>c. c \<in> set (take 62 scheme_chars)) url"

definition ex_session_get :: "nat \<Rightarrow> string \<Rightarrow> http_outcome" where
  "ex_session_get t url =
     (if url = ''https://h/docs/''
      then Response ''<a href=b><a href=c><a href=r.pdf><a href=/blog/y><a href=https://o/z><a href=#top>''
             200 (Some ''text/html; charset=utf-8'')
      else if url = ''https://h/docs/b'' then Response ''<a href=c>'' 200 (Some ''Text/HTML'')
      else if url = ''https://h/docs/c'' then Response ''c'' 200 (Some ''text/html'')
      else if url = ''https://h/docs/r.pdf'' then Response ''%PDF'' 200 (Some ''application/pdf'')
      else RequestException)"

definition ex_world :: world where
  "ex_world =
     \<lparr>urlparse = py_urlparse, urljoin = py_urljoin, find_all_a_href = ex_find_all_a_href,
      set_iter = (\<lambda>links. links),
      sha1_hexdigest = ex_digest,
      splitext_ext = py_splitext_ext, session_get = ex_session_get,
      robots_read = (\<lambda>t robots_url. None),
      random_uniform = (\<lambda>t lo hi. (lo + hi) / 2),
      now_strftime = (\<lambda>t. ''20240101''), now_isoformat = (\<lambda>t. ''2024-01-01T00:00:00''),
      fs_ok = (\<lambda>t p. True)\<rparr>"

definition ex_args :: args where
  "ex_args = \<lparr>depth = 2, max_pages = 0, delay_min = 1, delay_max = 2, user_agent = ''Test''\<rparr>"

text \<open>The same arguments with a budget of one page.\<close>

definition ex_budget_args :: args where
  "ex_budget_args = ex_args\<lparr>max_pages := 1\<rparr>"

text \<open>
  Two networks for \<^verbatim>\<open>fetch_page\<close>: one that times out on the first two requests and answers
  the third, one that refuses every connection.
\<close>

definition ex_flaky_world :: world where
  "ex_flaky_world =
     ex_world\<lparr>session_get := (\<lambda>t url. if t < 4 then Timeout else Response ''ok'' 200 None)\<rparr>"

definition ex_down_world :: world where
  "ex_down_world = ex_world\<lparr>session_get := (\<lambda>t url. ConnectionError)\<rparr>"

text \<open>
  Two file systems: one on which every call fails (a working directory that cannot be
  written), and one on which only the call made at moment 1 fails.
\<close>

definition ex_no_mkdir_world :: world where
  "ex_no_mkdir_world = ex_world\<lparr>fs_ok := (\<lambda>t p. False)\<rparr>"

definition ex_write_fail_world :: world where
  "ex_write_fail_world = ex_world\<lparr>fs_ok := (\<lambda>t p. t \<noteq> 1)\<rparr>"

text \<open>
  The states of three runs in this world, each given by what one pass through the loop
  body adds to the state before it. With the seed \<^verbatim>\<open>https://h/docs/\<close> the crawler processes the
  seed, \<^verbatim>\<open>b\<close>, \<^verbatim>\<open>c\<close> and \<^verbatim>\<open>r.pdf\<close>, and then pops the second entry for \<^verbatim>\<open>c\<close>, which page \<^verbatim>\<open>b\<close> had
  added to the queue. With the seeds \<^verbatim>\<open>ftp://h/x\<close> and \<^verbatim>\<open>https://h/docs/\<close> the first fetch fails
  and the second follows.
\<close>

definition ex_state_docs :: crawler where
  "ex_state_docs =
     init_crawler\<lparr>visited_urls := insert ''https://h/docs/'' (visited_urls init_crawler),
       robots_cache := (robots_cache init_crawler)(''https://h'' \<mapsto> None),
       pages_crawled := 1,
       files := (files init_crawler)(''data/raw/20240101/h_httpshdocs.html'' \<mapsto>
         ''<a href=b><a href=c><a href=r.pdf><a href=/blog/y><a href=https://o/z><a href=#top>''),
       index_jsonl := index_jsonl init_crawler @
         [\<lparr>md_url = ''https://h/docs/'', md_status_code = 200,
            md_content_type = ''text/html; charset=utf-8'',
            md_saved_path = ''data/raw/20240101/h_httpshdocs.html'',
            md_crawl_date = ''2024-01-01T00:00:00'', md_depth = 0,
            md_parent_url = [], md_content_length = 83\<rparr>],
       trace := trace init_crawler @
         [Pop ''https://h/docs/'' 0 [], Robots_read ''https://h/robots.txt'',
          Add_visited ''https://h/docs/'', Get ''https://h/docs/'',
          Fetch_page ''https://h/docs/'' 0 True, Mkdir ''data/raw/20240101'',
          Write_file ''data/raw/20240101/h_httpshdocs.html'', Mkdir ''data/raw'',
          Append_file ''data/raw/index.jsonl'']\<rparr>"

definition ex_state_b :: crawler where
  "ex_state_b =
     ex_state_docs\<lparr>visited_urls := insert ''https://h/docs/b'' (visited_urls ex_state_docs),
       pages_crawled := 2,
       files := (files ex_state_docs)(''data/raw/20240101/h_httpshdocsb.html'' \<mapsto>
         ''<a href=c>''),
       index_jsonl := index_jsonl ex_state_docs @
         [\<lparr>md_url = ''https://h/docs/b'', md_status_code = 200,
            md_content_type = ''text/html'',
            md_saved_path = ''data/raw/20240101/h_httpshdocsb.html'',
            md_crawl_date = ''2024-01-01T00:00:00'', md_depth = 1,
            md_parent_url = ''https://h/docs/'', md_content_length = 10\<rparr>],
       trace := trace ex_state_docs @
         [Pop ''https://h/docs/b'' 1 ''https://h/docs/'', Add_visited ''https://h/docs/b'',
          Sleep (3 / 2), Get ''https://h/docs/b'', Fetch_page ''https://h/docs/b'' 1 True,
          Mkdir ''data/raw/20240101'', Write_file ''data/raw/20240101/h_httpshdocsb.html'',
          Mkdir ''data/raw'', Append_file ''data/raw/index.jsonl'']\<rparr>"

definition ex_state_c :: crawler where
  "ex_state_c =
     ex_state_b\<lparr>visited_urls := insert ''https://h/docs/c'' (visited_urls ex_state_b),
       pages_crawled := 3,
       files := (files ex_state_b)(''data/raw/20240101/h_httpshdocsc.html'' \<mapsto>
         ''c''),
       index_jsonl := index_jsonl ex_state_b @
         [\<lparr>md_url = ''https://h/docs/c'', md_status_code = 200,
            md_content_type = ''text/html'',
            md_saved_path = ''data/raw/20240101/h_httpshdocsc.html'',
            md_crawl_date = ''2024-01-01T00:00:00'', md_depth = 1,
            md_parent_url = ''https://h/docs/'', md_content_length = 1\<rparr>],
       trace := trace ex_state_b @
         [Pop ''https://h/docs/c'' 1 ''https://h/docs/'', Add_visited ''https://h/docs/c'',
          Sleep (3 / 2), Get ''https://h/docs/c'', Fetch_page ''https://h/docs/c'' 1 True,
          Mkdir ''data/raw/20240101'', Write_file ''data/raw/20240101/h_httpshdocsc.html'',
          Mkdir ''data/raw'', Append_file ''data/raw/index.jsonl'']\<rparr>"

definition ex_state_pdf :: crawler where
  "ex_state_pdf =
     ex_state_c\<lparr>visited_urls := insert ''https://h/docs/r.pdf'' (visited_urls ex_state_c),
       pages_crawled := 4,
       files := (files ex_state_c)(''data/raw_files/httpshdocsrpdf.pdf'' \<mapsto>
         ''%PDF''),
       index_jsonl := index_jsonl ex_state_c @
         [\<lparr>md_url = ''https://h/docs/r.pdf'', md_status_code = 200,
            md_content_type = ''application/pdf'',
            md_saved_path = ''data/raw_files/httpshdocsrpdf.pdf'',
            md_crawl_date = ''2024-01-01T00:00:00'', md_depth = 0,
            md_parent_url = ''https://h/docs/'', md_content_length = 4\<rparr>],
       trace := trace ex_state_c @
         [Pop ''https://h/docs/r.pdf'' 0 ''https://h/docs/'',
          Add_visited ''https://h/docs/r.pdf'', Sleep (3 / 2), Get ''https://h/docs/r.pdf'',
          Fetch_page ''https://h/docs/r.pdf'' 0 True, Mkdir ''data/raw_files'',
          Write_file ''data/raw_files/httpshdocsrpdf.pdf'', Mkdir ''data/raw'',
          Append_file ''data/raw/index.jsonl'']\<rparr>"

definition ex_state_again :: crawler where
  "ex_state_again =
     ex_state_pdf\<lparr>trace := trace ex_state_pdf @
         [Pop ''https://h/docs/c'' 2 ''https://h/docs/b'']\<rparr>"

definition ex_state_ftp :: crawler where
  "ex_state_ftp =
     init_crawler\<lparr>visited_urls := insert ''ftp://h/x'' (visited_urls init_crawler),
       robots_cache := (robots_cache init_crawler)(''ftp://h'' \<mapsto> None),
       trace := trace init_crawler @
         [Pop ''ftp://h/x'' 0 [], Robots_read ''ftp://h/robots.txt'', Add_visited ''ftp://h/x'',
          Get ''ftp://h/x'', Fetch_page ''ftp://h/x'' 0 False]\<rparr>"

definition ex_state_ftp_docs :: crawler where
  "ex_state_ftp_docs =
     ex_state_ftp\<lparr>visited_urls := insert ''https://h/docs/'' (visited_urls ex_state_ftp),
       robots_cache := (robots_cache ex_state_ftp)(''https://h'' \<mapsto> None),
       pages_crawled := 1,
       files := (files ex_state_ftp)(''data/raw/20240101/h_httpshdocs.html'' \<mapsto>
         ''<a href=b><a href=c><a href=r.pdf><a href=/blog/y><a href=https://o/z><a href=#top>''),
       index_jsonl := index_jsonl ex_state_ftp @
         [\<lparr>md_url = ''https://h/docs/'', md_status_code = 200,
            md_content_type = ''text/html; charset=utf-8'',
            md_saved_path = ''data/raw/20240101/h_httpshdocs.html'',
            md_crawl_date = ''2024-01-01T00:00:00'', md_depth = 0,
            md_parent_url = [], md_content_length = 83\<rparr>],
       trace := trace ex_state_ftp @
         [Pop ''https://h/docs/'' 0 [], Robots_read ''https://h/robots.txt'',
          Add_visited ''https://h/docs/'', Get ''https://h/docs/'',
          Fetch_page ''https://h/docs/'' 0 True, Mkdir ''data/raw/20240101'',
          Write_file ''data/raw/20240101/h_httpshdocs.html'', Mkdir ''data/raw'',
          Append_file ''data/raw/index.jsonl'']\<rparr>"

section \<open>Notions used by the properties\<close>


text \<open>The exceptions on which \<^verbatim>\<open>fetch_page\<close> retries.\<close>

definition transient :: "http_outcome \<Rightarrow> bool" where
  "transient outcome = (outcome = Timeout \<or> outcome = ConnectionError)"

text \<open>
  The effects of the outside world, as opposed to the three events that record the
  progress of the crawl; the crawl events of a trace; and a step that leaves the visited
  set and the page counter alone and adds outside effects only.
\<close>

definition io_event :: "event \<Rightarrow> bool" where
  "io_event e = (case e of Pop url d parent \<Rightarrow> False | Add_visited url \<Rightarrow> False
                 | Fetch_page url d ok \<Rightarrow> False | _ \<Rightarrow> True)"

definition key_events :: "event list \<Rightarrow> event list" where
  "key_events t = filter (\<lambda>e. \<not> io_event e) t"

definition effects_only :: "crawler \<Rightarrow> crawler \<Rightarrow> bool" where
  "effects_only s s' \<longleftrightarrow>
     visited_urls s' = visited_urls s \<and> pages_crawled s' = pages_crawled s \<and>
     (\<exists>evs. trace s' = trace s @ evs \<and> list_all io_event evs)"

definition fetched_body :: "event \<Rightarrow> bool" where
  "fetched_body e = (case e of Fetch_page url d ok \<Rightarrow> ok | _ \<Rightarrow> False)"

definition is_fetch_of :: "string \<Rightarrow> event \<Rightarrow> bool" where
  "is_fetch_of u e = (case e of Fetch_page url d ok \<Rightarrow> url = u | _ \<Rightarrow> False)"

text \<open>An entry for \<open>u\<close> is popped from the queue after \<open>u\<close> has been added to the visited set.\<close>

definition is_pop_of :: "string \<Rightarrow> event \<Rightarrow> bool" where
  "is_pop_of u e = (case e of Pop url d parent \<Rightarrow> url = u | _ \<Rightarrow> False)"

fun popped_after_visited :: "string \<Rightarrow> event list \<Rightarrow> bool" where
  "popped_after_visited u [] = False"
| "popped_after_visited u (e # es) =
     ((e = Add_visited u \<and> list_ex (is_pop_of u) es) \<or> popped_after_visited u es)"

text \<open>What the proofs carry through a run.\<close>

definition run_inv :: "args \<Rightarrow> crawler \<Rightarrow> bool" where
  "run_inv a s \<longleftrightarrow>
     pages_crawled s = int (length (filter fetched_body (key_events (trace s)))) \<and>
     (0 < max_pages a \<longrightarrow> pages_crawled s \<le> max_pages a) \<and>
     (\<forall>u d ok. Fetch_page u d ok \<in> set (key_events (trace s)) \<longrightarrow> d \<le> depth a) \<and>
     (\<forall>u. Add_visited u \<in> set (key_events (trace s)) \<longleftrightarrow> u \<in> visited_urls s) \<and>
     (\<forall>u. length (filter (is_fetch_of u) (key_events (trace s))) \<le>
          length (filter (\<lambda>e. e = Add_visited u) (key_events (trace s))) \<and>
          length (filter (\<lambda>e. e = Add_visited u) (key_events (trace s))) \<le> 1)"

section \<open>Strings and the reference library\<close>

lemma startswith_prefix: "startswith s p = prefix p s"
  by (induction s p rule: startswith.induct) auto

lemma str_contains_sublist: "str_contains s sub = sublist sub s"
proof (induction s)
  case Nil
  show ?case by auto
next
  case (Cons c s)
  show ?case
  proof (cases sub)
    case Nil
    then show ?thesis by simp
  next
    case (Cons x xs)
    then show ?thesis
      using Cons.IH by (simp add: startswith_prefix sublist_Cons_right)
  qed
qed

text \<open>After \<^verbatim>\<open>rstrip('/')\<close> a path is never the root: the second test of line 215 is dead.\<close>

lemma rstrip_slash_not_root: "rstrip p ''/'' \<noteq> ''/''"
proof
  assume h: "rstrip p ''/'' = ''/''"
  have "dropWhile (\<lambda>c. c = CHR ''/'') (rev p) = [] \<or>
        hd (dropWhile (\<lambda>c. c = CHR ''/'') (rev p)) \<noteq> CHR ''/''"
    using hd_dropWhile[of "\<lambda>c. c = CHR ''/''" "rev p"] by blast
  moreover from h have "dropWhile (\<lambda>c. c = CHR ''/'') (rev p) = ''/''"
    by (simp add: rstrip_def rev_swap)
  ultimately show False by simp
qed

lemmas py_urlparse_simps =
  py_urlparse_def py_urlparse_scheme_def py_urlsplit_def py_splitparams_def partition_at_def
  scheme_chars_def uses_params_def lower_def lower_char_def Let_def

text \<open>In the reference library \<^verbatim>\<open>https:\<close> and \<^verbatim>\<open>http:\<close> parse alike, up to the scheme.\<close>

lemma py_urlsplit_https:
  "py_urlsplit (CHR ''h'' # CHR ''t'' # CHR ''t'' # CHR ''p'' # CHR ''s'' # CHR '':'' # r) d =
     (case py_urlsplit (CHR ''h'' # CHR ''t'' # CHR ''t'' # CHR ''p'' # CHR '':'' # r) d of Inl e \<Rightarrow> Inl e
      | Inr (sch, rest) \<Rightarrow> Inr (''https'', rest))"
  by (simp add: py_urlsplit_def partition_at_def scheme_chars_def lower_def lower_char_def
      Let_def split: prod.splits)

lemma py_urlsplit_http:
  "py_urlsplit (CHR ''h'' # CHR ''t'' # CHR ''t'' # CHR ''p'' # CHR '':'' # r) d = Inr (sch, rest) \<Longrightarrow> sch = ''http''"
  by (auto simp add: py_urlsplit_def partition_at_def scheme_chars_def lower_def lower_char_def
      Let_def split: prod.splits if_splits)

lemma py_urlparse_https:
  "py_urlparse (CHR ''h'' # CHR ''t'' # CHR ''t'' # CHR ''p'' # CHR ''s'' # CHR '':'' # r) =
     (case py_urlparse (CHR ''h'' # CHR ''t'' # CHR ''t'' # CHR ''p'' # CHR '':'' # r) of Inl e \<Rightarrow> Inl e | Inr p \<Rightarrow> Inr (p\<lparr>scheme := ''https''\<rparr>))"
proof (cases "py_urlsplit (CHR ''h'' # CHR ''t'' # CHR ''t'' # CHR ''p'' # CHR '':'' # r) []")
  case (Inl e)
  then show ?thesis
    by (simp add: py_urlparse_def py_urlparse_scheme_def py_urlsplit_https)
next
  case (Inr x)
  obtain sch nl u q f where x: "x = (sch, nl, u, q, f)"
    by (cases x) auto
  with Inr have "sch = ''http''"
    using py_urlsplit_http by blast
  with Inr x show ?thesis
    by (simp add: py_urlparse_def py_urlparse_scheme_def py_urlsplit_https uses_params_def
        split: prod.splits)
qed

section \<open>The fetcher\<close>

lemma range_3: "[0..<3] = [0, 1, 2]"
  by (simp add: upt_conv_Cons)

text \<open>The three passes through the loop of \<^verbatim>\<open>fetch_page\<close>, written out.\<close>

lemma fetch_page_unfold:
  "fetch_page w url s =
     (let s1 = emit (Get url) s in
      case session_get w (clock s) url of
        Response content status_code header \<Rightarrow>
          ((Some content, status_code, lower (case header of None \<Rightarrow> [] | Some v \<Rightarrow> v),
            int (length content)), s1)
      | RequestException \<Rightarrow> ((None, 0, [], 0), s1)
      | _ \<Rightarrow>
         (let s2 = emit (Get url) (emit (Sleep 1) s1) in
          case session_get w (clock s + 2) url of
            Response content status_code header \<Rightarrow>
              ((Some content, status_code, lower (case header of None \<Rightarrow> [] | Some v \<Rightarrow> v),
                int (length content)), s2)
          | RequestException \<Rightarrow> ((None, 0, [], 0), s2)
          | _ \<Rightarrow>
             (let s3 = emit (Get url) (emit (Sleep 2) s2) in
              case session_get w (clock s + 4) url of
                Response content status_code header \<Rightarrow>
                  ((Some content, status_code, lower (case header of None \<Rightarrow> [] | Some v \<Rightarrow> v),
                    int (length content)), s3)
              | _ \<Rightarrow> ((None, 0, [], 0), s3))))"
  by (simp add: fetch_page_def range_3 backoff_def emit_def clock_def Let_def eval_nat_numeral
      split: http_outcome.splits)

text \<open>
  C5. \<^verbatim>\<open>fetch_page\<close> makes one, two or three requests and sleeps \<open>2 ^ attempt\<close> seconds
  after a failed attempt that is not the last. It goes on to the next attempt only after a
  timeout or a connection error. When the first two attempts fail in that way, it has
  slept 1 and 2 seconds and nothing after the third request; if the third attempt fails
  in that way too the result is \<^verbatim>\<open>(None, 0, "", 0)\<close>, and if the third attempt gets a
  response the result is that response.
\<close>

theorem fetch_page_retries:
  "(\<exists>evs \<in> {[Get url], [Get url, Sleep 1, Get url], [Get url, Sleep 1, Get url, Sleep 2, Get url]}.
      snd (fetch_page w url s) = s\<lparr>trace := trace s @ evs\<rparr>) \<and>
   (\<not> transient (session_get w (clock s) url) \<longrightarrow>
      snd (fetch_page w url s) = s\<lparr>trace := trace s @ [Get url]\<rparr>) \<and>
   (transient (session_get w (clock s) url) \<longrightarrow>
    \<not> transient (session_get w (clock s + 2) url) \<longrightarrow>
      snd (fetch_page w url s) = s\<lparr>trace := trace s @ [Get url, Sleep 1, Get url]\<rparr>) \<and>
   (transient (session_get w (clock s) url) \<longrightarrow>
    transient (session_get w (clock s + 2) url) \<longrightarrow>
      snd (fetch_page w url s) =
        s\<lparr>trace := trace s @ [Get url, Sleep (2 ^ 0), Get url, Sleep (2 ^ 1), Get url]\<rparr> \<and>
      (transient (session_get w (clock s + 4) url) \<longrightarrow>
         fst (fetch_page w url s) = (None, 0, [], 0)) \<and>
      (\<forall>content status_code header.
         session_get w (clock s + 4) url = Response content status_code header \<longrightarrow>
         fst (fetch_page w url s) =
           (Some content, status_code, lower (case header of None \<Rightarrow> [] | Some v \<Rightarrow> v),
            int (length content))))"
  unfolding fetch_page_unfold
  by (cases "session_get w (clock s) url"; cases "session_get w (clock s + 2) url";
      cases "session_get w (clock s + 4) url")
     (simp_all add: transient_def emit_def Let_def eval_nat_numeral)

theorem fetch_page_retries_witness:
  "transient (session_get ex_flaky_world (clock init_crawler) ''https://h/docs/'') \<and>
   transient (session_get ex_flaky_world (clock init_crawler + 2) ''https://h/docs/'') \<and>
   session_get ex_flaky_world (clock init_crawler + 4) ''https://h/docs/'' = Response ''ok'' 200 None \<and>
   fetch_page ex_flaky_world ''https://h/docs/'' init_crawler =
     ((Some ''ok'', 200, [], 2),
      init_crawler\<lparr>trace := [Get ''https://h/docs/'', Sleep 1, Get ''https://h/docs/'', Sleep 2,
                               Get ''https://h/docs/'']\<rparr>) \<and>
   transient (session_get ex_down_world (clock init_crawler + 4) ''https://h/docs/'') \<and>
   fetch_page ex_down_world ''https://h/docs/'' init_crawler =
     ((None, 0, [], 0),
      init_crawler\<lparr>trace := [Get ''https://h/docs/'', Sleep 1, Get ''https://h/docs/'', Sleep 2,
                               Get ''https://h/docs/'']\<rparr>)"
proof -
  have flaky: "session_get ex_flaky_world t u = (if t < 4 then Timeout else Response ''ok'' 200 None)" for t u
    by (simp add: ex_flaky_world_def)
  have down: "session_get ex_down_world t u = ConnectionError" for t u
    by (simp add: ex_down_world_def)
  have c: "clock init_crawler = 0" "trace init_crawler = []"
    by (simp_all add: clock_def init_crawler_def)
  show ?thesis
    using fetch_page_retries[of "''https://h/docs/''" ex_flaky_world init_crawler]
      fetch_page_retries[of "''https://h/docs/''" ex_down_world init_crawler]
    by (simp add: flaky down c transient_def prod_eq_iff lower_def)
qed

section \<open>What the parts of the loop body change\<close>

lemma effects_only_refl [simp]: "effects_only s s"
  by (simp add: effects_only_def)

lemma effects_only_trans: "effects_only s s' \<Longrightarrow> effects_only s' s'' \<Longrightarrow> effects_only s s''"
  by (auto simp: effects_only_def)

lemma effects_only_emit: "io_event e \<Longrightarrow> effects_only s s' \<Longrightarrow> effects_only s (emit e s')"
  by (auto simp: effects_only_def emit_def)

lemma effects_only_fields [simp]:
  "effects_only s (s'\<lparr>robots_cache := rc\<rparr>) = effects_only s s'"
  "effects_only s (s'\<lparr>files := fs\<rparr>) = effects_only s s'"
  "effects_only s (s'\<lparr>index_jsonl := ix\<rparr>) = effects_only s s'"
  by (simp_all add: effects_only_def)

lemma io_event_simps [simp]:
  "io_event (Get u)" "io_event (Sleep x)" "io_event (Robots_read u)" "io_event (Mkdir u)"
  "io_event (Write_file u)" "io_event (Append_file u)"
  "\<not> io_event (Pop u d p)" "\<not> io_event (Add_visited u)" "\<not> io_event (Fetch_page u d ok)"
  by (simp_all add: io_event_def)

lemma effects_only_key_events: "effects_only s s' \<Longrightarrow> key_events (trace s') = key_events (trace s)"
  by (auto simp: effects_only_def key_events_def list_all_iff)

lemma get_robots_parser_effects: "effects_only s (snd (get_robots_parser w url s))"
  by (auto simp: get_robots_parser_def Let_def intro!: effects_only_emit split: sum.splits option.splits)

lemma can_fetch_effects: "effects_only s (snd (can_fetch w a url s))"
  using get_robots_parser_effects[of s w url]
  by (auto simp: can_fetch_def split: prod.splits sum.splits option.splits)

lemma fetch_attempts_effects: "effects_only s (snd (fetch_attempts w url atts s))"
proof (induction atts arbitrary: s)
  case Nil
  show ?case by simp
next
  case (Cons attempt rest)
  have step: "effects_only s (backoff attempt (emit (Get url) s))"
    by (simp add: backoff_def effects_only_emit)
  show ?case
    using effects_only_trans[OF step Cons.IH]
    by (auto simp: effects_only_emit split: http_outcome.splits)
qed

lemma fetch_page_effects: "effects_only s (snd (fetch_page w url s))"
  by (simp add: fetch_page_def fetch_attempts_effects)

lemma write_content_effects: "effects_only s s1 \<Longrightarrow> effects_only s (snd (write_content w fp content s1))"
  by (simp add: write_content_def effects_only_emit)

lemma write_content_effects':
  "effects_only s s1 \<Longrightarrow> write_content w fp content s1 = (saved, s2) \<Longrightarrow> effects_only s s2"
  using write_content_effects[of s s1 w fp content] by simp

lemma save_raw_effects: "effects_only s (snd (save_raw w content url is_file s))"
proof (cases is_file)
  case True
  show ?thesis
  proof (cases "urlparse w url")
    case (Inl e)
    with True show ?thesis by (simp add: save_raw_def)
  next
    case (Inr parsed)
    have "effects_only s (emit (Mkdir raw_files_dir) s)"
      by (simp add: effects_only_emit)
    with True Inr show ?thesis
      by (auto simp: save_raw_def Let_def split: prod.splits dest: write_content_effects')
  qed
next
  case False
  have "effects_only s (emit (Mkdir p) s)" for p
    by (simp add: effects_only_emit)
  with False show ?thesis
    by (auto simp: save_raw_def Let_def split: prod.splits sum.splits dest: write_content_effects')
qed

lemma log_metadata_effects:
  "effects_only s (log_metadata w url status_code content_type saved_path d parent_url content_length s)"
  by (simp add: log_metadata_def Let_def effects_only_emit)

lemma emit_fields [simp]:
  "visited_urls (emit e s) = visited_urls s"
  "pages_crawled (emit e s) = pages_crawled s"
  "robots_cache (emit e s) = robots_cache s"
  "files (emit e s) = files s"
  "index_jsonl (emit e s) = index_jsonl s"
  "trace (emit e s) = trace s @ [e]"
  by (simp_all add: emit_def)

lemma key_events_append [simp]: "key_events (t @ t') = key_events t @ key_events t'"
  by (simp add: key_events_def)

lemma key_events_single [simp]: "key_events [e] = (if io_event e then [] else [e])"
  by (simp add: key_events_def)

lemma effects_onlyD:
  assumes "effects_only s s'"
  shows "visited_urls s' = visited_urls s" and "pages_crawled s' = pages_crawled s"
    and "key_events (trace s') = key_events (trace s)"
  using assms effects_only_key_events[OF assms] by (simp_all add: effects_only_def)

lemma process_content_effects:
  assumes "process_content w a seed_url e queue page s = (r, s')"
  shows "effects_only (s\<lparr>pages_crawled := pages_crawled s + 1\<rparr>) s'"
proof -
  obtain url d parent_url where e: "e = (url, d, parent_url)"
    by (cases e) auto
  obtain content status_code content_type content_length
    where page: "page = (content, status_code, content_type, content_length)"
    by (cases page) auto
  define s1 where "s1 = s\<lparr>pages_crawled := pages_crawled s + 1\<rparr>"
  define f where "f = (has_file_ext url \<or> \<not> str_contains content_type ''text/html'')"
  obtain sr s2 where sr: "save_raw w content url f s1 = (sr, s2)"
    by (cases "save_raw w content url f s1") auto
  have e2: "effects_only s1 s2"
    using save_raw_effects[of s1 w content url f] sr by simp
  have e3: "effects_only s1
      (log_metadata w url status_code content_type sp d parent_url content_length s2)" for sp
    using effects_only_trans[OF e2 log_metadata_effects] .
  have "s' = s2 \<or>
      (\<exists>sp. s' = log_metadata w url status_code content_type sp d parent_url content_length s2)"
  proof (cases f)
    case True
    with assms sr show ?thesis
      unfolding process_content_def e page
      by (simp add: Let_def s1_def[symmetric] f_def[symmetric] split: sum.splits) blast
  next
    case False
    then have nf: "\<not> has_file_ext url" "str_contains content_type ''text/html''"
      by (simp_all add: f_def)
    from assms sr False show ?thesis
      unfolding process_content_def e page
      by (simp add: Let_def s1_def[symmetric] nf split: sum.splits if_splits) blast+
  qed
  with e2 e3 show ?thesis
    unfolding s1_def by blast
qed

lemma crawl_seed_body_skip:
  "url \<in> visited_urls s \<or> d > depth a \<Longrightarrow>
   crawl_seed_body w a seed_url ((url, d, p) # queue) s = (Inr queue, emit (Pop url d p) s)"
  by (auto simp: crawl_seed_body_def Let_def)

lemma crawl_seed_body_denied:
  assumes "url \<notin> visited_urls s" "d \<le> depth a"
    and "can_fetch w a url (emit (Pop url d p) s) = (cf, s2)" and "cf \<noteq> Inr True"
  shows "crawl_seed_body w a seed_url ((url, d, p) # queue) s =
           (case cf of Inl err \<Rightarrow> Inl err | Inr allowed \<Rightarrow> Inr queue, s2)"
  using assms by (simp add: crawl_seed_body_def Let_def split: sum.splits)

lemma crawl_seed_body_fetch:
  assumes "url \<notin> visited_urls s" "d \<le> depth a"
    and "can_fetch w a url (emit (Pop url d p) s) = (Inr True, s2)"
    and "s3 = emit (Add_visited url) (s2\<lparr>visited_urls := insert url (visited_urls s2)\<rparr>)"
    and "s4 = (if pages_crawled s3 > 0
               then emit (Sleep (random_uniform w (clock s3) (delay_min a) (delay_max a))) s3
               else s3)"
    and "fetch_page w url s4 = ((body, status_code, content_type, content_length), s5)"
  shows "crawl_seed_body w a seed_url ((url, d, p) # queue) s =
           (case body of
              None \<Rightarrow> (Inr queue, emit (Fetch_page url d False) s5)
            | Some content \<Rightarrow>
                process_content w a seed_url (url, d, p) queue
                  (content, status_code, content_type, content_length)
                  (emit (Fetch_page url d True) s5))"
proof -
  have "crawl_seed_body w a seed_url ((url, d, p) # queue) s =
          (case fetch_page w url s4 of
             ((None, status_code, content_type, content_length), s5) \<Rightarrow>
               (Inr queue, emit (Fetch_page url d False) s5)
           | ((Some content, status_code, content_type, content_length), s5) \<Rightarrow>
               process_content w a seed_url (url, d, p) queue
                 (content, status_code, content_type, content_length)
                 (emit (Fetch_page url d True) s5))"
    unfolding assms(4,5) using assms(1,2,3)
    by (simp add: crawl_seed_body_def Let_def)
  then show ?thesis
    by (simp add: assms(6) split: option.splits)
qed

lemma crawl_seed_body_cases:
  assumes "crawl_seed_body w a seed_url ((url, d, p) # queue) s = (r, s')"
  shows "(r = Inr queue \<and> s' = emit (Pop url d p) s \<and> (url \<in> visited_urls s \<or> d > depth a)) \<or>
         (url \<notin> visited_urls s \<and> d \<le> depth a \<and> visited_urls s' = visited_urls s \<and>
          pages_crawled s' = pages_crawled s \<and>
          key_events (trace s') = key_events (trace s) @ [Pop url d p] \<and>
          (r = Inr queue \<or> (\<exists>err. r = Inl err))) \<or>
         (url \<notin> visited_urls s \<and> d \<le> depth a \<and> visited_urls s' = insert url (visited_urls s) \<and>
          pages_crawled s' = pages_crawled s \<and>
          key_events (trace s') =
            key_events (trace s) @ [Pop url d p, Add_visited url, Fetch_page url d False] \<and>
          r = Inr queue) \<or>
         (url \<notin> visited_urls s \<and> d \<le> depth a \<and> visited_urls s' = insert url (visited_urls s) \<and>
          pages_crawled s' = pages_crawled s + 1 \<and>
          key_events (trace s') =
            key_events (trace s) @ [Pop url d p, Add_visited url, Fetch_page url d True])"
proof (cases "url \<in> visited_urls s \<or> d > depth a")
  case True
  with assms crawl_seed_body_skip[OF True, of w seed_url p queue] show ?thesis
    by simp
next
  case False
  then have nv: "url \<notin> visited_urls s" "d \<le> depth a"
    by simp_all
  define s1 where "s1 = emit (Pop url d p) s"
  obtain cf s2 where cf: "can_fetch w a url (emit (Pop url d p) s) = (cf, s2)"
    by (cases "can_fetch w a url (emit (Pop url d p) s)") auto
  have e2: "effects_only s1 s2"
    using can_fetch_effects[of s1 w a url] cf by (simp add: s1_def)
  note f2 = effects_onlyD[OF e2]
  show ?thesis
  proof (cases "cf = Inr True")
    case no: False
    from crawl_seed_body_denied[OF nv cf no, of seed_url queue] assms
    have "s' = s2" "r = Inr queue \<or> (\<exists>err. r = Inl err)"
      by (auto split: sum.splits)
    with nv f2 show ?thesis
      by (simp add: s1_def)
  next
    case yes: True
    define s3 where "s3 = emit (Add_visited url) (s2\<lparr>visited_urls := insert url (visited_urls s2)\<rparr>)"
    define s4 where "s4 = (if pages_crawled s3 > 0
                            then emit (Sleep (random_uniform w (clock s3) (delay_min a) (delay_max a))) s3
                            else s3)"
    obtain body status_code content_type content_length s5
      where fp: "fetch_page w url s4 = ((body, status_code, content_type, content_length), s5)"
      by (metis surj_pair)
    have e4: "effects_only s3 s4"
      by (simp add: s4_def effects_only_emit)
    have e5: "effects_only s4 s5"
      using fetch_page_effects[of s4 w url] fp by simp
    note f5 = effects_onlyD[OF effects_only_trans[OF e4 e5]]
    have s3: "visited_urls s3 = insert url (visited_urls s)" "pages_crawled s3 = pages_crawled s"
      "key_events (trace s3) = key_events (trace s) @ [Pop url d p, Add_visited url]"
      using f2 by (simp_all add: s3_def s1_def)
    note body = crawl_seed_body_fetch[OF nv cf[unfolded yes] s3_def s4_def fp, of seed_url queue]
    show ?thesis
    proof (cases body)
      case None
      with assms body have "s' = emit (Fetch_page url d False) s5" "r = Inr queue"
        by simp_all
      with nv f5 s3 show ?thesis by simp
    next
      case (Some content)
      with assms body
      have "process_content w a seed_url (url, d, p) queue
              (content, status_code, content_type, content_length)
              (emit (Fetch_page url d True) s5) = (r, s')"
        by simp
      from effects_onlyD[OF process_content_effects[OF this]] nv f5 s3
      show ?thesis by simp
    qed
  qed
qed

section \<open>Invariants of a run\<close>

lemma fetched_body_simps [simp]:
  "fetched_body (Fetch_page u d ok) = ok" "\<not> fetched_body (Pop u d p)" "\<not> fetched_body (Add_visited u)"
  by (simp_all add: fetched_body_def)

lemma is_fetch_of_simps [simp]:
  "is_fetch_of u (Fetch_page url d ok) = (url = u)" "\<not> is_fetch_of u (Pop url d p)"
  "\<not> is_fetch_of u (Add_visited url)"
  by (simp_all add: is_fetch_of_def)

lemma run_inv_init: "run_inv a init_crawler"
  by (simp add: run_inv_def init_crawler_def key_events_def)

lemma filter_eq_Nil_if_notin: "x \<notin> set xs \<Longrightarrow> filter (\<lambda>e. e = x) xs = []"
  by (induction xs) auto

lemma run_inv_body:
  assumes inv: "run_inv a s"
    and budget: "max_pages a = 0 \<or> pages_crawled s < max_pages a"
    and body: "crawl_seed_body w a seed_url ((url, d, p) # queue) s = (r, s')"
  shows "run_inv a s'"
proof -
  have nv: "url \<notin> visited_urls s \<Longrightarrow> filter (\<lambda>e. e = Add_visited url) (key_events (trace s)) = []"
    using inv by (simp add: run_inv_def filter_eq_Nil_if_notin)
  have a: "s' = emit (Pop url d p) s \<Longrightarrow> run_inv a s'"
    using inv by (auto simp: run_inv_def)
  have b: "visited_urls s' = visited_urls s \<Longrightarrow> pages_crawled s' = pages_crawled s \<Longrightarrow>
      key_events (trace s') = key_events (trace s) @ [Pop url d p] \<Longrightarrow> run_inv a s'"
    using inv by (auto simp: run_inv_def)
  have c: "url \<notin> visited_urls s \<Longrightarrow> d \<le> depth a \<Longrightarrow>
      visited_urls s' = insert url (visited_urls s) \<Longrightarrow> pages_crawled s' = pages_crawled s \<Longrightarrow>
      key_events (trace s') =
        key_events (trace s) @ [Pop url d p, Add_visited url, Fetch_page url d False] \<Longrightarrow>
      run_inv a s'"
    using inv nv by (auto simp: run_inv_def)
  have d: "url \<notin> visited_urls s \<Longrightarrow> d \<le> depth a \<Longrightarrow>
      visited_urls s' = insert url (visited_urls s) \<Longrightarrow> pages_crawled s' = pages_crawled s + 1 \<Longrightarrow>
      key_events (trace s') =
        key_events (trace s) @ [Pop url d p, Add_visited url, Fetch_page url d True] \<Longrightarrow>
      run_inv a s'"
    using inv nv budget by (auto simp: run_inv_def)
  from crawl_seed_body_cases[OF body] a b c d show ?thesis
    by blast
qed

lemma run_inv_step:
  assumes "run_inv a (snd c)"
  shows "run_inv a (snd (step w a c))"
proof (cases c)
  case (Pair ctl s)
  show ?thesis
  proof (cases ctl)
    case (Run_loop seeds)
    with Pair assms show ?thesis
      by (cases seeds) auto
  next
    case (Crawl_seed seed_url queue0 seeds)
    show ?thesis
    proof (cases "queue0 \<noteq> [] \<and> (max_pages a = 0 \<or> pages_crawled s < max_pages a)")
      case False
      with Pair Crawl_seed assms show ?thesis by auto
    next
      case True
      then obtain url d p queue where q: "queue0 = (url, d, p) # queue"
        by (cases queue0) auto
      obtain r s' where body: "crawl_seed_body w a seed_url ((url, d, p) # queue) s = (r, s')"
        by (cases "crawl_seed_body w a seed_url ((url, d, p) # queue) s") auto
      from run_inv_body[OF _ _ body] True Pair assms have "run_inv a s'"
        by simp
      with Pair Crawl_seed True q body show ?thesis
        by (simp split: sum.splits)
    qed
  qed (use Pair assms in auto)
qed

lemma run_inv_run_steps: "run_inv a (snd (run_steps w a seeds n))"
  by (induction n) (simp_all add: run_inv_init run_inv_step)

lemma filter_key_events: "(\<And>e. P e \<Longrightarrow> \<not> io_event e) \<Longrightarrow> filter P (key_events t) = filter P t"
  by (induction t) (auto simp: key_events_def)

lemma visited_urls_step: "visited_urls (snd c) \<subseteq> visited_urls (snd (step w a c))"
proof (cases c)
  case (Pair ctl s)
  show ?thesis
  proof (cases ctl)
    case (Run_loop seeds)
    with Pair show ?thesis
      by (cases seeds) auto
  next
    case (Crawl_seed seed_url queue0 seeds)
    show ?thesis
    proof (cases "queue0 \<noteq> [] \<and> (max_pages a = 0 \<or> pages_crawled s < max_pages a)")
      case False
      with Pair Crawl_seed show ?thesis by auto
    next
      case True
      then obtain url d p queue where q: "queue0 = (url, d, p) # queue"
        by (cases queue0) auto
      obtain r s' where body: "crawl_seed_body w a seed_url ((url, d, p) # queue) s = (r, s')"
        by (cases "crawl_seed_body w a seed_url ((url, d, p) # queue) s") auto
      from crawl_seed_body_cases[OF body] have "visited_urls s \<subseteq> visited_urls s'"
        by auto
      with Pair Crawl_seed True q body show ?thesis
        by (simp split: sum.splits)
    qed
  qed (use Pair in auto)
qed

lemma visited_urls_mono:
  "visited_urls (snd (run_steps w a seeds n)) \<subseteq> visited_urls (snd (run_steps w a seeds (n + k)))"
proof (induction k)
  case 0
  show ?case by simp
next
  case (Suc k)
  then show ?case
    using visited_urls_step[of "run_steps w a seeds (n + k)" w a] by auto
qed

section \<open>Link extraction and the frontier\<close>

lemma set_add_set [simp]: "set (set_add links x) = insert x (set links)"
  by (auto simp: set_add_def)

lemma set_add_distinct [simp]: "distinct links \<Longrightarrow> distinct (set_add links x)"
  by (simp add: set_add_def)

lemma collect_links_distinct: "distinct links \<Longrightarrow> distinct (collect_links w base_url hrefs links)"
  by (induction hrefs arbitrary: links) (auto simp: Let_def split: sum.splits)


lemma parse_links_distinct: "distinct (parse_links w html base_url)"
  by (simp add: parse_links_def collect_links_distinct split: sum.splits)

lemma enqueue_links_spec:
  "enqueue_links w visited seed_url url d links queue = Inr queue' \<Longrightarrow>
   queue' = queue @ map (\<lambda>link. (link, if has_file_ext link then d else d + 1, url))
                      (filter (\<lambda>link. link \<notin> visited \<and> should_follow w link seed_url = Inr True) links)"
proof (induction links arbitrary: queue)
  case Nil
  then show ?case by simp
next
  case (Cons link links)
  show ?case
  proof (cases "link \<in> visited")
    case True
    with Cons show ?thesis by simp
  next
    case False
    show ?thesis
    proof (cases "should_follow w link seed_url")
      case (Inl e)
      with False Cons.prems show ?thesis by simp
    next
      case (Inr follow)
      with False Cons.prems Cons.IH[of "queue @ [(link, d, url)]"]
        Cons.IH[of "queue @ [(link, d + 1, url)]"] Cons.IH[of queue]
      show ?thesis
        by (cases follow) (auto split: if_splits)
    qed
  qed
qed

lemma has_file_ext_sublist:
  "has_file_ext link \<longleftrightarrow> (\<exists>ext \<in> {''.pdf'', ''.doc'', ''.docx''}. sublist ext (lower link))"
  by (simp add: has_file_ext_def str_contains_sublist)

section \<open>Persistence\<close>

lemma write_content_fields:
  "visited_urls (snd (write_content w fp content s)) = visited_urls s"
  "index_jsonl (snd (write_content w fp content s)) = index_jsonl s"
  "trace (snd (write_content w fp content s)) = trace s @ [Write_file fp]"
  by (simp_all add: write_content_def)

lemma save_raw_returns:
  assumes "urlparse w url = Inr parsed" and "\<forall>p. fs_ok w (clock s) p"
  shows "\<exists>saved_path. fst (save_raw w content url is_file s) = Inr saved_path"
  using assms by (simp add: save_raw_def Let_def split: prod.splits)

lemma save_raw_write_fails:
  assumes "urlparse w url = Inr parsed" and "\<forall>p. fs_ok w (clock s) p"
    and "\<forall>p. \<not> fs_ok w (Suc (clock s)) p"
  shows "fst (save_raw w content url is_file s) = Inr []"
    and "files (snd (save_raw w content url is_file s)) = files s"
    and "index_jsonl (snd (save_raw w content url is_file s)) = index_jsonl s"
  using assms by (simp_all add: save_raw_def write_content_def clock_def Let_def)

lemma log_metadata_fails:
  assumes "\<not> fs_ok w (clock s) raw_dir \<or> \<not> fs_ok w (Suc (clock s)) index_file"
  shows "index_jsonl (log_metadata w url status_code content_type saved_path d parent_url content_length s) = index_jsonl s"
    and "files (log_metadata w url status_code content_type saved_path d parent_url content_length s) = files s"
  using assms by (auto simp: log_metadata_def clock_def Let_def)

lemma process_content_continues:
  assumes "urlparse w url = Inr parsed" and "\<forall>p. fs_ok w (clock s) p"
  shows "fst (process_content w a seed_url (url, d, parent_url) queue
                (content, status_code, content_type, content_length) s) =
         (if has_file_ext url \<or> \<not> str_contains content_type ''text/html'' \<or> \<not> d < depth a
          then Inr queue
          else enqueue_links w (visited_urls s) seed_url url d
                 (iterate_set w (parse_links w content url)) queue)"
proof -
  define s1 where "s1 = s\<lparr>pages_crawled := pages_crawled s + 1\<rparr>"
  have c: "clock s1 = clock s"
    by (simp add: s1_def clock_def)
  have sr: "\<exists>sp s2. save_raw w content url f s1 = (Inr sp, s2)" for f
    using save_raw_returns[OF assms(1), of s1 content f] assms(2) c
    by (metis prod.collapse)
  have v: "visited_urls (log_metadata w url status_code content_type sp d parent_url content_length s2)
             = visited_urls s"
    if "save_raw w content url f s1 = (Inr sp, s2)" for f sp s2
  proof -
    have "effects_only s1 s2"
      using save_raw_effects[of s1 w content url f] that by simp
    from effects_only_trans[OF this log_metadata_effects] show ?thesis
      by (simp add: effects_only_def s1_def)
  qed
  show ?thesis
  proof (cases "has_file_ext url \<or> \<not> str_contains content_type ''text/html''")
    case True
    obtain sp s2 where "save_raw w content url True s1 = (Inr sp, s2)"
      using sr by blast
    with True show ?thesis
      by (auto simp: process_content_def s1_def[symmetric])
  next
    case False
    obtain sp s2 where s: "save_raw w content url False s1 = (Inr sp, s2)"
      using sr by blast
    with False v[OF s] show ?thesis
      by (simp add: process_content_def s1_def[symmetric] Let_def split: sum.splits)
  qed
qed

section \<open>The runs of the reference world\<close>

lemma ex_world_fields [simp]:
  "urlparse ex_world = py_urlparse" "urljoin ex_world = py_urljoin"
  "find_all_a_href ex_world = ex_find_all_a_href" "set_iter ex_world links = links"
  "sha1_hexdigest ex_world = ex_digest"
  "splitext_ext ex_world = py_splitext_ext" "session_get ex_world = ex_session_get"
  "robots_read ex_world t u = None" "random_uniform ex_world t lo hi = (lo + hi) / 2"
  "now_strftime ex_world t = ''20240101''" "now_isoformat ex_world t = ''2024-01-01T00:00:00''"
  "fs_ok ex_world t p"
  by (simp_all add: ex_world_def)

lemma ex_args_fields [simp]:
  "depth ex_args = 2" "max_pages ex_args = 0" "delay_min ex_args = 1" "delay_max ex_args = 2"
  "user_agent ex_args = ''Test''"
  "depth ex_budget_args = 2" "max_pages ex_budget_args = 1" "delay_min ex_budget_args = 1"
  "delay_max ex_budget_args = 2"
  by (simp_all add: ex_args_def ex_budget_args_def)

lemma ex_urlparse [simp]:
  "py_urlparse ''https://h/docs/'' = Inr \<lparr>scheme = ''https'', netloc = ''h'', path = ''/docs/'', params = [], query = [], fragment = []\<rparr>"
  "py_urlparse ''https://h/docs/b'' = Inr \<lparr>scheme = ''https'', netloc = ''h'', path = ''/docs/b'', params = [], query = [], fragment = []\<rparr>"
  "py_urlparse ''https://h/docs/c'' = Inr \<lparr>scheme = ''https'', netloc = ''h'', path = ''/docs/c'', params = [], query = [], fragment = []\<rparr>"
  "py_urlparse ''https://h/docs/r.pdf'' = Inr \<lparr>scheme = ''https'', netloc = ''h'', path = ''/docs/r.pdf'', params = [], query = [], fragment = []\<rparr>"
  "py_urlparse ''https://h/blog/y'' = Inr \<lparr>scheme = ''https'', netloc = ''h'', path = ''/blog/y'', params = [], query = [], fragment = []\<rparr>"
  "py_urlparse ''https://o/z'' = Inr \<lparr>scheme = ''https'', netloc = ''o'', path = ''/z'', params = [], query = [], fragment = []\<rparr>"
  "py_urlparse ''ftp://h/x'' = Inr \<lparr>scheme = ''ftp'', netloc = ''h'', path = ''/x'', params = [], query = [], fragment = []\<rparr>"
  by (simp_all add: py_urlparse_simps)

lemma ex_urljoin [simp]:
  "py_urljoin ''https://h'' ''/robots.txt'' = Inr ''https://h/robots.txt''"
  "py_urljoin ''ftp://h'' ''/robots.txt'' = Inr ''ftp://h/robots.txt''"
  "py_urljoin ''https://h/docs/'' ''b'' = Inr ''https://h/docs/b''"
  "py_urljoin ''https://h/docs/'' ''c'' = Inr ''https://h/docs/c''"
  "py_urljoin ''https://h/docs/'' ''r.pdf'' = Inr ''https://h/docs/r.pdf''"
  "py_urljoin ''https://h/docs/'' ''/blog/y'' = Inr ''https://h/blog/y''"
  "py_urljoin ''https://h/docs/'' ''https://o/z'' = Inr ''https://o/z''"
  "py_urljoin ''https://h/docs/'' ''#top'' = Inr ''https://h/docs/#top''"
  "py_urljoin ''https://h/docs/b'' ''c'' = Inr ''https://h/docs/c''"
  "py_urljoin ''https://h/'' ''/a'' = Inr ''https://h/a''"
  "py_urljoin ''https://h/'' ''/b'' = Inr ''https://h/b''"
  "py_urljoin ''https://h/'' ''https://h/c'' = Inr ''https://h/c''"
  "py_urljoin ''https://h/'' ''#frag'' = Inr ''https://h/#frag''"
  by code_simp+

lemma ex_has_file_ext [simp]:
  "\<not> has_file_ext ''https://h/docs/''" "\<not> has_file_ext ''https://h/docs/b''"
  "\<not> has_file_ext ''https://h/docs/c''" "has_file_ext ''https://h/docs/r.pdf''"
  "\<not> has_file_ext ''ftp://h/x''"
  by (simp_all add: has_file_ext_def lower_def lower_char_def)

lemma ex_digest [simp]:
  "ex_digest ''https://h/docs/'' = ''httpshdocs''"
  "ex_digest ''https://h/docs/b'' = ''httpshdocsb''"
  "ex_digest ''https://h/docs/c'' = ''httpshdocsc''"
  "ex_digest ''https://h/docs/r.pdf'' = ''httpshdocsrpdf''"
  by (simp_all add: ex_digest_def scheme_chars_def)

lemma ex_content_type [simp]:
  "lower ''text/html; charset=utf-8'' = ''text/html; charset=utf-8''"
  "lower ''Text/HTML'' = ''text/html''" "lower ''text/html'' = ''text/html''"
  "lower ''application/pdf'' = ''application/pdf''" "lower ''.pdf'' = ''.pdf''"
  "str_contains ''text/html; charset=utf-8'' ''text/html''" "str_contains ''text/html'' ''text/html''"
  "\<not> str_contains ''application/pdf'' ''text/html''"
  by (simp_all add: lower_def lower_char_def)

lemmas crawl_simps = crawl_seed_body_def process_content_def can_fetch_def get_robots_parser_def
  fetch_page_def range_3 backoff_def emit_def clock_def save_raw_def write_content_def
  log_metadata_def parse_links_def iterate_set_def set_add_def should_follow_def
  split_hash_first_def rstrip_def replace_colon_def raw_dir_def raw_files_dir_def index_file_def
  py_splitext_ext_def ex_session_get_def ex_find_all_a_href_def Let_def

lemma init_crawler_pages [simp]: "pages_crawled init_crawler = 0"
  by (simp add: init_crawler_def)

lemma run_steps_next: "m = Suc n \<Longrightarrow> run_steps w a seeds m = step w a (run_steps w a seeds n)"
  by simp

lemma ex_body_docs:
  assumes "depth a = 2" and "delay_min a = 1" and "delay_max a = 2"
  shows "crawl_seed_body ex_world a ''https://h/docs/''
           [(''https://h/docs/'', 0, [])] init_crawler =
         (Inr [(''https://h/docs/b'', 1, ''https://h/docs/''), (''https://h/docs/c'', 1, ''https://h/docs/''), (''https://h/docs/r.pdf'', 0, ''https://h/docs/'')],
          ex_state_docs)"
  using assms by (simp add: crawl_simps init_crawler_def ex_state_docs_def)

lemma ex_body_b:
  assumes "depth a = 2" and "delay_min a = 1" and "delay_max a = 2"
  shows "crawl_seed_body ex_world a ''https://h/docs/''
           [(''https://h/docs/b'', 1, ''https://h/docs/''), (''https://h/docs/c'', 1, ''https://h/docs/''), (''https://h/docs/r.pdf'', 0, ''https://h/docs/'')] ex_state_docs =
         (Inr [(''https://h/docs/c'', 1, ''https://h/docs/''), (''https://h/docs/r.pdf'', 0, ''https://h/docs/''), (''https://h/docs/c'', 2, ''https://h/docs/b'')],
          ex_state_b)"
  using assms by (simp add: crawl_simps init_crawler_def ex_state_docs_def ex_state_b_def)

lemma ex_body_c:
  assumes "depth a = 2" and "delay_min a = 1" and "delay_max a = 2"
  shows "crawl_seed_body ex_world a ''https://h/docs/''
           [(''https://h/docs/c'', 1, ''https://h/docs/''), (''https://h/docs/r.pdf'', 0, ''https://h/docs/''), (''https://h/docs/c'', 2, ''https://h/docs/b'')] ex_state_b =
         (Inr [(''https://h/docs/r.pdf'', 0, ''https://h/docs/''), (''https://h/docs/c'', 2, ''https://h/docs/b'')],
          ex_state_c)"
  using assms by (simp add: crawl_simps init_crawler_def ex_state_docs_def ex_state_b_def ex_state_c_def)

lemma ex_body_pdf:
  assumes "depth a = 2" and "delay_min a = 1" and "delay_max a = 2"
  shows "crawl_seed_body ex_world a ''https://h/docs/''
           [(''https://h/docs/r.pdf'', 0, ''https://h/docs/''), (''https://h/docs/c'', 2, ''https://h/docs/b'')] ex_state_c =
         (Inr [(''https://h/docs/c'', 2, ''https://h/docs/b'')],
          ex_state_pdf)"
  using assms by (simp add: crawl_simps init_crawler_def ex_state_docs_def ex_state_b_def ex_state_c_def ex_state_pdf_def)

lemma ex_body_again:
  assumes "depth a = 2" and "delay_min a = 1" and "delay_max a = 2"
  shows "crawl_seed_body ex_world a ''https://h/docs/''
           [(''https://h/docs/c'', 2, ''https://h/docs/b'')] ex_state_pdf =
         (Inr [],
          ex_state_again)"
  using assms by (simp add: crawl_simps init_crawler_def ex_state_docs_def ex_state_b_def ex_state_c_def ex_state_pdf_def ex_state_again_def)

lemma ex_run_1:
  "run_steps ex_world ex_args [''https://h/docs/''] 1 =
     (Crawl_seed ''https://h/docs/'' [(''https://h/docs/'', 0, [])] [], init_crawler)"
  by simp

lemma ex_run_2:
  "run_steps ex_world ex_args [''https://h/docs/''] 2 =
     (Crawl_seed ''https://h/docs/'' [(''https://h/docs/b'', 1, ''https://h/docs/''), (''https://h/docs/c'', 1, ''https://h/docs/''), (''https://h/docs/r.pdf'', 0, ''https://h/docs/'')] [], ex_state_docs)"
  by (simp add: run_steps_next[of 2 1] ex_run_1 ex_body_docs)

lemma ex_run_3:
  "run_steps ex_world ex_args [''https://h/docs/''] 3 =
     (Crawl_seed ''https://h/docs/'' [(''https://h/docs/c'', 1, ''https://h/docs/''), (''https://h/docs/r.pdf'', 0, ''https://h/docs/''), (''https://h/docs/c'', 2, ''https://h/docs/b'')] [], ex_state_b)"
  by (simp add: run_steps_next[of 3 2] ex_run_2 ex_body_b)

lemma ex_run_4:
  "run_steps ex_world ex_args [''https://h/docs/''] 4 =
     (Crawl_seed ''https://h/docs/'' [(''https://h/docs/r.pdf'', 0, ''https://h/docs/''), (''https://h/docs/c'', 2, ''https://h/docs/b'')] [], ex_state_c)"
  by (simp add: run_steps_next[of 4 3] ex_run_3 ex_body_c)

lemma ex_run_5:
  "run_steps ex_world ex_args [''https://h/docs/''] 5 =
     (Crawl_seed ''https://h/docs/'' [(''https://h/docs/c'', 2, ''https://h/docs/b'')] [], ex_state_pdf)"
  by (simp add: run_steps_next[of 5 4] ex_run_4 ex_body_pdf)

lemma ex_run_6:
  "run_steps ex_world ex_args [''https://h/docs/''] 6 =
     (Crawl_seed ''https://h/docs/'' [] [], ex_state_again)"
  by (simp add: run_steps_next[of 6 5] ex_run_5 ex_body_again)

lemma ex_budget_run_1:
  "run_steps ex_world ex_budget_args [''https://h/docs/''] 1 =
     (Crawl_seed ''https://h/docs/'' [(''https://h/docs/'', 0, [])] [], init_crawler)"
  by (simp add: init_crawler_def)

lemma ex_budget_run_2:
  "run_steps ex_world ex_budget_args [''https://h/docs/''] 2 =
     (Crawl_seed ''https://h/docs/'' [(''https://h/docs/b'', 1, ''https://h/docs/''), (''https://h/docs/c'', 1, ''https://h/docs/''), (''https://h/docs/r.pdf'', 0, ''https://h/docs/'')] [], ex_state_docs)"
  by (simp add: run_steps_next[of 2 1] ex_budget_run_1 ex_body_docs)

lemma ex_budget_run_3:
  "run_steps ex_world ex_budget_args [''https://h/docs/''] 3 =
     (Run_loop [], ex_state_docs)"
  by (simp add: run_steps_next[of 3 2] ex_budget_run_2 ex_state_docs_def init_crawler_def)

lemma ex_body_ftp:
  assumes "depth a = 2" and "delay_min a = 1" and "delay_max a = 2"
  shows "crawl_seed_body ex_world a ''ftp://h/x''
           [(''ftp://h/x'', 0, [])] init_crawler =
         (Inr [],
          ex_state_ftp)"
  using assms by (simp add: crawl_simps init_crawler_def ex_state_ftp_def)

lemma ex_body_ftp_docs:
  assumes "depth a = 2" and "delay_min a = 1" and "delay_max a = 2"
  shows "crawl_seed_body ex_world a ''https://h/docs/''
           [(''https://h/docs/'', 0, [])] ex_state_ftp =
         (Inr [(''https://h/docs/b'', 1, ''https://h/docs/''), (''https://h/docs/c'', 1, ''https://h/docs/''), (''https://h/docs/r.pdf'', 0, ''https://h/docs/'')],
          ex_state_ftp_docs)"
  using assms by (simp add: crawl_simps init_crawler_def ex_state_ftp_def ex_state_ftp_docs_def)

lemma ex_ftp_run_1:
  "run_steps ex_world ex_args [''ftp://h/x'', ''https://h/docs/''] 1 =
     (Crawl_seed ''ftp://h/x'' [(''ftp://h/x'', 0, [])] [''https://h/docs/''], init_crawler)"
  by simp

lemma ex_ftp_run_2:
  "run_steps ex_world ex_args [''ftp://h/x'', ''https://h/docs/''] 2 =
     (Crawl_seed ''ftp://h/x'' [] [''https://h/docs/''], ex_state_ftp)"
  by (simp add: run_steps_next[of 2 1] ex_ftp_run_1 ex_body_ftp)

lemma ex_ftp_run_3:
  "run_steps ex_world ex_args [''ftp://h/x'', ''https://h/docs/''] 3 =
     (Run_loop [''https://h/docs/''], ex_state_ftp)"
  by (simp add: run_steps_next[of 3 2] ex_ftp_run_2)

lemma ex_ftp_run_4:
  "run_steps ex_world ex_args [''ftp://h/x'', ''https://h/docs/''] 4 =
     (Crawl_seed ''https://h/docs/'' [(''https://h/docs/'', 0, [])] [], ex_state_ftp)"
  by (simp add: run_steps_next[of 4 3] ex_ftp_run_3)

lemma ex_ftp_run_5:
  "run_steps ex_world ex_args [''ftp://h/x'', ''https://h/docs/''] 5 =
     (Crawl_seed ''https://h/docs/'' [(''https://h/docs/b'', 1, ''https://h/docs/''), (''https://h/docs/c'', 1, ''https://h/docs/''), (''https://h/docs/r.pdf'', 0, ''https://h/docs/'')] [], ex_state_ftp_docs)"
  by (simp add: run_steps_next[of 5 4] ex_ftp_run_4 ex_body_ftp_docs)

section \<open>The scope policy\<close>




text \<open>
  C10 as stated does not hold for every change of scheme: \<^verbatim>\<open>urlparse\<close> splits \<^verbatim>\<open>;params\<close> off the
  path for the schemes of its \<^verbatim>\<open>uses_params\<close> list only, so the seed
  \<^verbatim>\<open>https://example.com/docs/a;p\<close> has the path \<^verbatim>\<open>/docs/a\<close> and the seed
  \<^verbatim>\<open>svn://example.com/docs/a;p\<close> the path \<^verbatim>\<open>/docs/a;p\<close>, and the same link is followed under the
  first and not under the second.
\<close>

theorem should_follow_depends_on_scheme:
  "should_follow ex_world ''https://example.com/docs/a'' ''https://example.com/docs/a;p'' = Inr True \<and>
   should_follow ex_world ''https://example.com/docs/a'' ''svn://example.com/docs/a;p'' = Inr False"
  by (simp add: should_follow_def py_urlparse_simps rstrip_def)

text \<open>
  C10, amended. The result of \<^verbatim>\<open>should_follow\<close> is a function of the netloc and the path that
  \<^verbatim>\<open>urlparse\<close> returns for its two arguments; the scheme is not read. So the result is the same
  when the parse of either argument is replaced by one that differs in the scheme only,
  and in the reference library that is the case for \<^verbatim>\<open>https\<close> against \<^verbatim>\<open>http\<close>: an \<^verbatim>\<open>http\<close> link
  on the host and under the path of an \<^verbatim>\<open>https\<close> seed is followed.
\<close>

theorem should_follow_scheme_invariant:
  "(urlparse w url = Inr u \<longrightarrow> urlparse w seed_url = Inr s \<longrightarrow>
      should_follow w url seed_url =
        Inr (netloc u = netloc s \<and>
             (rstrip (path s) ''/'' = [] \<or> prefix (rstrip (path s) ''/'') (path u)))) \<and>
   (urlparse w url = Inr u \<longrightarrow> urlparse w url' = Inr (u\<lparr>scheme := sc\<rparr>) \<longrightarrow>
    urlparse w seed_url = Inr s \<longrightarrow> urlparse w seed_url' = Inr (s\<lparr>scheme := sc'\<rparr>) \<longrightarrow>
      should_follow w url' seed_url' = should_follow w url seed_url) \<and>
   (urlparse w = py_urlparse \<longrightarrow>
      should_follow w (''https:'' @ r) seed_url = should_follow w (''http:'' @ r) seed_url \<and>
      should_follow w url (''https:'' @ r) = should_follow w url (''http:'' @ r))"
proof -
  have a: "should_follow w url seed_url =
        Inr (netloc u = netloc s \<and>
             (rstrip (path s) ''/'' = [] \<or> prefix (rstrip (path s) ''/'') (path u)))"
    if "urlparse w url = Inr u" and "urlparse w seed_url = Inr s"
    using that rstrip_slash_not_root[of "path s"]
    by (simp add: should_follow_def Let_def startswith_prefix)
  have b: "should_follow w url' seed_url' = should_follow w url seed_url"
    if "urlparse w url = Inr u" and "urlparse w url' = Inr (u\<lparr>scheme := sc\<rparr>)"
      and "urlparse w seed_url = Inr s" and "urlparse w seed_url' = Inr (s\<lparr>scheme := sc'\<rparr>)"
    using that by (simp add: should_follow_def)
  have c: "should_follow w (''https:'' @ r) seed_url = should_follow w (''http:'' @ r) seed_url \<and>
      should_follow w url (''https:'' @ r) = should_follow w url (''http:'' @ r)"
    if "urlparse w = py_urlparse"
    using that by (auto simp: should_follow_def py_urlparse_https split: sum.splits)
  from a b c show ?thesis
    by blast
qed

theorem should_follow_scheme_invariant_witness:
  "urlparse ex_world ''https://example.com/docs/page1'' =
     Inr \<lparr>scheme = ''https'', netloc = ''example.com'', path = ''/docs/page1'', params = [],
          query = [], fragment = []\<rparr> \<and>
   urlparse ex_world ''http://example.com/docs/page1'' =
     Inr (\<lparr>scheme = ''https'', netloc = ''example.com'', path = ''/docs/page1'', params = [],
           query = [], fragment = []\<rparr>\<lparr>scheme := ''http''\<rparr>) \<and>
   urlparse ex_world ''https://example.com/docs/'' =
     Inr \<lparr>scheme = ''https'', netloc = ''example.com'', path = ''/docs/'', params = [],
          query = [], fragment = []\<rparr> \<and>
   urlparse ex_world = py_urlparse \<and>
   should_follow ex_world ''https://example.com/docs/page1'' ''https://example.com/docs/'' = Inr True \<and>
   should_follow ex_world ''http://example.com/docs/page1'' ''https://example.com/docs/'' = Inr True \<and>
   should_follow ex_world (''https:'' @ ''//example.com/blog/'') ''https://example.com/docs/'' =
     should_follow ex_world (''http:'' @ ''//example.com/blog/'') ''https://example.com/docs/''"
proof -
  let ?u = "\<lparr>scheme = ''https'', netloc = ''example.com'', path = ''/docs/page1'', params = [],
          query = [], fragment = []\<rparr>"
  let ?s = "\<lparr>scheme = ''https'', netloc = ''example.com'', path = ''/docs/'', params = [],
          query = [], fragment = []\<rparr>"
  have u: "urlparse ex_world ''https://example.com/docs/page1'' = Inr ?u"
    and u': "urlparse ex_world ''http://example.com/docs/page1'' = Inr (?u\<lparr>scheme := ''http''\<rparr>)"
    and s: "urlparse ex_world ''https://example.com/docs/'' = Inr ?s"
    and s': "urlparse ex_world ''https://example.com/docs/'' = Inr (?s\<lparr>scheme := ''https''\<rparr>)"
    and lib: "urlparse ex_world = py_urlparse"
    by (simp_all add: py_urlparse_simps)
  note t = should_follow_scheme_invariant[where w = ex_world
      and url = "''https://example.com/docs/page1''" and url' = "''http://example.com/docs/page1''"
      and seed_url = "''https://example.com/docs/''" and seed_url' = "''https://example.com/docs/''"
      and u = ?u and s = ?s and sc = "''http''" and sc' = "''https''"
      and r = "''//example.com/blog/''"]
  have a: "should_follow ex_world ''https://example.com/docs/page1'' ''https://example.com/docs/'' = Inr True"
    using t[THEN conjunct1, rule_format, OF u s] by (simp add: rstrip_def)
  have b: "should_follow ex_world ''http://example.com/docs/page1'' ''https://example.com/docs/'' = Inr True"
    using t[THEN conjunct2, THEN conjunct1, rule_format, OF u u' s s'] a by simp
  have c: "should_follow ex_world (''https:'' @ ''//example.com/blog/'') ''https://example.com/docs/'' =
     should_follow ex_world (''http:'' @ ''//example.com/blog/'') ''https://example.com/docs/''"
    using t[THEN conjunct2, THEN conjunct2, rule_format, OF lib] by (rule conjunct1)
  show ?thesis
    by (rule conjI u u' s lib a b c)+
qed

section \<open>The page budget, the depth bound and the visited set\<close>

lemma set_key_events: "set (key_events t) = {e \<in> set t. \<not> io_event e}"
  by (simp add: key_events_def)

lemma fetched_body_not_io: "fetched_body e \<Longrightarrow> \<not> io_event e"
  by (cases e) (simp_all add: fetched_body_def)

lemma is_fetch_of_not_io: "is_fetch_of u e \<Longrightarrow> \<not> io_event e"
  by (cases e) (simp_all add: is_fetch_of_def)

text \<open>
  C1. After any number of steps of any run with a page budget (\<^verbatim>\<open>max_pages > 0\<close>),
  \<^verbatim>\<open>pages_crawled\<close> is at most the budget. The counter is the number of calls of
  \<^verbatim>\<open>fetch_page\<close> that returned a body. Once the budget is reached, the test of the \<^verbatim>\<open>while\<close>
  loop leaves \<^verbatim>\<open>crawl_seed\<close> before another entry is popped, and the \<^verbatim>\<open>for\<close> loop of \<^verbatim>\<open>run\<close>
  stops before another seed is started.
\<close>

theorem pages_crawled_within_budget:
  "(0 < max_pages a \<longrightarrow> pages_crawled (snd (run_steps w a seeds n)) \<le> max_pages a) \<and>
   pages_crawled (snd (run_steps w a seeds n)) =
     int (length (filter fetched_body (trace (snd (run_steps w a seeds n))))) \<and>
   (0 < max_pages a \<longrightarrow> max_pages a \<le> pages_crawled s \<longrightarrow>
      step w a (Crawl_seed seed_url queue seeds', s) = (Run_loop seeds', s) \<and>
      step w a (Run_loop (seed_url # seeds'), s) = (Returned, s))"
  using run_inv_run_steps[of a w seeds n]
  by (auto simp: run_inv_def filter_key_events[of fetched_body, OF fetched_body_not_io])

theorem pages_crawled_within_budget_witness:
  "0 < max_pages ex_budget_args \<and>
   pages_crawled (snd (run_steps ex_world ex_budget_args [''https://h/docs/''] 3)) = 1 \<and>
   pages_crawled (snd (run_steps ex_world ex_budget_args [''https://h/docs/''] 3)) \<le> max_pages ex_budget_args \<and>
   max_pages ex_budget_args \<le> pages_crawled ex_state_docs \<and>
   step ex_world ex_budget_args
     (Crawl_seed ''https://h/docs/'' [(''https://h/docs/b'', 1, ''https://h/docs/'')] [''https://h/docs/c''],
      ex_state_docs) = (Run_loop [''https://h/docs/c''], ex_state_docs) \<and>
   step ex_world ex_budget_args (Run_loop [''https://h/docs/c''], ex_state_docs) = (Returned, ex_state_docs)"
proof -
  have p: "pages_crawled ex_state_docs = 1"
    by (simp add: ex_state_docs_def)
  show ?thesis
    using pages_crawled_within_budget[where a = ex_budget_args and w = ex_world
        and seeds = "[''https://h/docs/'']" and n = 3 and s = ex_state_docs
        and seed_url = "''https://h/docs/''"
        and queue = "[(''https://h/docs/b'', 1, ''https://h/docs/'')]"
        and seeds' = "[''https://h/docs/c'']"]
      pages_crawled_within_budget[where a = ex_budget_args and w = ex_world
        and seeds = "[''https://h/docs/'']" and n = 3 and s = ex_state_docs
        and seed_url = "''https://h/docs/c''" and queue = "[]" and seeds' = "[]"]
    by (simp only: ex_budget_run_3 snd_conv p ex_args_fields) simp
qed

text \<open>
  C2. An entry popped with a depth above \<^verbatim>\<open>args.depth\<close> is discarded: nothing happens but
  the pop, and the loop goes on with the rest of the queue. In every run, every call of
  \<^verbatim>\<open>fetch_page\<close> is for an entry whose depth is at most \<^verbatim>\<open>args.depth\<close>.
\<close>

theorem no_fetch_beyond_max_depth:
  "(depth a < d \<longrightarrow>
      crawl_seed_body w a seed_url ((url, d, parent_url) # queue) s =
        (Inr queue, emit (Pop url d parent_url) s)) \<and>
   (Fetch_page url d ok \<in> set (trace (snd (run_steps w a seeds n))) \<longrightarrow> d \<le> depth a)"
proof -
  have "Fetch_page url d ok \<in> set (trace (snd (run_steps w a seeds n))) \<Longrightarrow> d \<le> depth a"
    using run_inv_run_steps[of a w seeds n] by (auto simp: run_inv_def set_key_events)
  then show ?thesis
    by (simp add: crawl_seed_body_skip)
qed

theorem no_fetch_beyond_max_depth_witness:
  "depth ex_args < 3 \<and>
   crawl_seed_body ex_world ex_args ''https://h/docs/''
     [(''https://h/docs/c'', 3, ''https://h/docs/b'')] init_crawler =
     (Inr [], emit (Pop ''https://h/docs/c'' 3 ''https://h/docs/b'') init_crawler) \<and>
   Fetch_page ''https://h/docs/b'' 1 True \<in> set (trace (snd (run_steps ex_world ex_args [''https://h/docs/''] 3))) \<and>
   1 \<le> depth ex_args"
proof -
  have f: "Fetch_page ''https://h/docs/b'' 1 True \<in>
      set (trace (snd (run_steps ex_world ex_args [''https://h/docs/''] 3)))"
    by (simp add: ex_run_3 ex_state_b_def ex_state_docs_def init_crawler_def)
  show ?thesis
    using no_fetch_beyond_max_depth[where a = ex_args and d = 3 and w = ex_world
        and seed_url = "''https://h/docs/''" and url = "''https://h/docs/c''"
        and parent_url = "''https://h/docs/b''" and queue = "[]" and s = init_crawler]
      no_fetch_beyond_max_depth[where a = ex_args and d = 1 and url = "''https://h/docs/b''"
        and ok = True and w = ex_world and seeds = "[''https://h/docs/'']" and n = 3] f
    by simp
qed

text \<open>
  C3 as stated does not hold: a URL in the visited set is dequeued again. In the run from
  the seed \<^verbatim>\<open>https://h/docs/\<close>, page \<^verbatim>\<open>b\<close> adds a second entry for \<^verbatim>\<open>c\<close> to the queue while \<^verbatim>\<open>c\<close> is
  not yet visited; \<^verbatim>\<open>c\<close> is then processed from its first entry, and the sixth step pops the
  second entry after \<^verbatim>\<open>c\<close> has been added to the visited set.
\<close>

theorem visited_url_popped_again:
  "popped_after_visited ''https://h/docs/c''
     (trace (snd (run_steps ex_world ex_args [''https://h/docs/''] 6)))"
  by (simp add: ex_run_6 ex_state_again_def ex_state_pdf_def ex_state_c_def ex_state_b_def
      ex_state_docs_def init_crawler_def is_pop_of_def)

text \<open>
  C3, amended. In every run a URL is added to the visited set at most once, and it is in
  the set exactly when that has happened; the visited set only grows; \<^verbatim>\<open>fetch_page\<close> is
  called for a URL at most once. An entry whose URL is already visited may still be
  popped, but it is discarded with nothing else done; and a link that is already visited
  is not added to the queue.
\<close>

theorem visited_at_most_once:
  "length (filter (\<lambda>e. e = Add_visited u) (trace (snd (run_steps w a seeds n)))) \<le> 1 \<and>
   (Add_visited u \<in> set (trace (snd (run_steps w a seeds n))) \<longleftrightarrow>
      u \<in> visited_urls (snd (run_steps w a seeds n))) \<and>
   visited_urls (snd (run_steps w a seeds n)) \<subseteq> visited_urls (snd (run_steps w a seeds (n + k))) \<and>
   length (filter (is_fetch_of u) (trace (snd (run_steps w a seeds n)))) \<le> 1 \<and>
   (u \<in> visited_urls s \<longrightarrow>
      crawl_seed_body w a seed_url ((u, d, parent_url) # queue) s =
        (Inr queue, emit (Pop u d parent_url) s)) \<and>
   (u \<in> visited \<longrightarrow> enqueue_links w visited seed_url url d' links queue = Inr queue' \<longrightarrow>
      filter (\<lambda>e. fst e = u) queue' = filter (\<lambda>e. fst e = u) queue)"
proof -
  let ?t = "trace (snd (run_steps w a seeds n))"
  have inv: "run_inv a (snd (run_steps w a seeds n))"
    by (rule run_inv_run_steps)
  have k1: "filter (\<lambda>e. e = Add_visited u) (key_events ?t) = filter (\<lambda>e. e = Add_visited u) ?t"
    by (rule filter_key_events) simp
  have k2: "filter (is_fetch_of u) (key_events ?t) = filter (is_fetch_of u) ?t"
    by (rule filter_key_events) (rule is_fetch_of_not_io)
  have a: "length (filter (\<lambda>e. e = Add_visited u) ?t) \<le> 1"
    and c: "length (filter (is_fetch_of u) ?t) \<le> 1"
    using inv k1 k2 unfolding run_inv_def by (metis, metis order_trans)
  have b: "Add_visited u \<in> set ?t \<longleftrightarrow> u \<in> visited_urls (snd (run_steps w a seeds n))"
    using inv by (auto simp: run_inv_def set_key_events)
  have e: "filter (\<lambda>e. fst e = u) queue' = filter (\<lambda>e. fst e = u) queue"
    if "u \<in> visited" "enqueue_links w visited seed_url url d' links queue = Inr queue'"
    using enqueue_links_spec[OF that(2)] that(1) by (auto simp: filter_empty_conv)
  from a b c e show ?thesis
    by (simp add: visited_urls_mono crawl_seed_body_skip)
qed

theorem visited_at_most_once_witness:
  "''https://h/docs/'' \<in> visited_urls ex_state_docs \<and>
   crawl_seed_body ex_world ex_args ''https://h/docs/''
     [(''https://h/docs/'', 1, ''https://h/docs/b'')] ex_state_docs =
     (Inr [], emit (Pop ''https://h/docs/'' 1 ''https://h/docs/b'') ex_state_docs) \<and>
   enqueue_links ex_world {''https://h/docs/''} ''https://h/docs/'' ''https://h/docs/b'' 1
     [''https://h/docs/'', ''https://h/docs/c''] [] = Inr [(''https://h/docs/c'', 2, ''https://h/docs/b'')] \<and>
   filter (\<lambda>e. fst e = ''https://h/docs/'') [(''https://h/docs/c'', 2 :: int, ''https://h/docs/b'')] = []"
proof -
  have v: "''https://h/docs/'' \<in> visited_urls ex_state_docs"
    by (simp add: ex_state_docs_def)
  have q: "enqueue_links ex_world {''https://h/docs/''} ''https://h/docs/'' ''https://h/docs/b'' 1
     [''https://h/docs/'', ''https://h/docs/c''] [] = Inr [(''https://h/docs/c'', 2, ''https://h/docs/b'')]"
    by (simp add: should_follow_def rstrip_def)
  show ?thesis
    using visited_at_most_once[where u = "''https://h/docs/''" and w = ex_world and a = ex_args
        and s = ex_state_docs and seed_url = "''https://h/docs/''" and d = 1
        and parent_url = "''https://h/docs/b''" and queue = "[]"
        and visited = "{''https://h/docs/''}" and url = "''https://h/docs/b''" and d' = 1
        and links = "[''https://h/docs/'', ''https://h/docs/c'']"
        and queue' = "[(''https://h/docs/c'', 2, ''https://h/docs/b'')]"] v q
    by simp
qed

section \<open>Expanding the frontier\<close>

lemma iterate_set_set [simp]: "set (iterate_set w links) = set links"
  by (simp add: iterate_set_def Let_def)

lemma iterate_set_distinct: "distinct links \<Longrightarrow> distinct (iterate_set w links)"
  by (simp add: iterate_set_def Let_def)

lemma process_content_html:
  assumes "\<not> has_file_ext url" and "str_contains content_type ''text/html''" and "d < depth a"
    and "fst (process_content w a seed_url (url, d, parent_url) queue
                (content, status_code, content_type, content_length) s) = Inr queue'"
  shows "enqueue_links w (visited_urls s) seed_url url d
           (iterate_set w (parse_links w content url)) queue = Inr queue'"
proof -
  define s1 where "s1 = s\<lparr>pages_crawled := pages_crawled s + 1\<rparr>"
  obtain sr s2 where sr: "save_raw w content url False s1 = (sr, s2)"
    by (cases "save_raw w content url False s1") auto
  have "effects_only s1 s2"
    using save_raw_effects[of s1 w content url False] sr by simp
  from effects_only_trans[OF this log_metadata_effects]
  have v: "visited_urls (log_metadata w url status_code content_type sp d parent_url
             content_length s2) = visited_urls s" for sp
    by (simp add: effects_only_def s1_def)
  from assms sr v show ?thesis
    by (cases sr) (simp_all add: process_content_def s1_def[symmetric] Let_def split: sum.splits)
qed

text \<open>
  C6. When an HTML page at depth \<open>d\<close> below the maximum depth has been saved and its links
  are added to the queue, the queue grows by exactly the discovered links that are not
  visited and that \<^verbatim>\<open>should_follow\<close> accepts, every link once, each with the page's URL as
  parent: at depth \<open>d\<close> when the lower-cased link contains \<^verbatim>\<open>.pdf\<close>, \<^verbatim>\<open>.doc\<close> or \<^verbatim>\<open>.docx\<close>, at depth
  \<open>d + 1\<close> otherwise.
\<close>

theorem links_enqueued_by_kind:
  "\<not> has_file_ext url \<longrightarrow> str_contains content_type ''text/html'' \<longrightarrow> d < depth a \<longrightarrow>
   fst (process_content w a seed_url (url, d, parent_url) queue
          (content, status_code, content_type, content_length) s) = Inr queue' \<longrightarrow>
   queue' =
     queue @
     map (\<lambda>link. (link,
                  if \<exists>ext \<in> {''.pdf'', ''.doc'', ''.docx''}. sublist ext (lower link) then d else d + 1,
                  url))
       (filter (\<lambda>link. link \<notin> visited_urls s \<and> should_follow w link seed_url = Inr True)
          (iterate_set w (parse_links w content url))) \<and>
   set (iterate_set w (parse_links w content url)) = set (parse_links w content url) \<and>
   distinct (iterate_set w (parse_links w content url))"
  using enqueue_links_spec[OF process_content_html]
  by (simp add: has_file_ext_sublist iterate_set_distinct parse_links_distinct)

lemma ex_parse_links_docs:
  "parse_links ex_world
     ''<a href=b><a href=c><a href=r.pdf><a href=/blog/y><a href=https://o/z><a href=#top>''
     ''https://h/docs/'' =
   [''https://h/docs/b'', ''https://h/docs/c'', ''https://h/docs/r.pdf'', ''https://h/blog/y'',
    ''https://o/z'', ''https://h/docs/'']"
  by (simp add: parse_links_def ex_find_all_a_href_def split_hash_first_def set_add_def)

theorem links_enqueued_by_kind_witness:
  "\<not> has_file_ext ''https://h/docs/'' \<and>
   str_contains ''text/html; charset=utf-8'' ''text/html'' \<and> 0 < depth ex_args \<and>
   fst (process_content ex_world ex_args ''https://h/docs/'' (''https://h/docs/'', 0, []) []
          (''<a href=b><a href=c><a href=r.pdf><a href=/blog/y><a href=https://o/z><a href=#top>'',
           200, ''text/html; charset=utf-8'', 83)
          (init_crawler\<lparr>visited_urls := {''https://h/docs/''}\<rparr>)) =
     Inr [(''https://h/docs/b'', 1, ''https://h/docs/''), (''https://h/docs/c'', 1, ''https://h/docs/''),
          (''https://h/docs/r.pdf'', 0, ''https://h/docs/'')] \<and>
   [(''https://h/docs/b'', 1, ''https://h/docs/''), (''https://h/docs/c'', 1, ''https://h/docs/''),
    (''https://h/docs/r.pdf'', 0, ''https://h/docs/'')] =
     [] @
     map (\<lambda>link. (link,
                  if \<exists>ext \<in> {''.pdf'', ''.doc'', ''.docx''}. sublist ext (lower link) then (0::int) else 0 + 1,
                  ''https://h/docs/''))
       (filter (\<lambda>link. link \<notin> visited_urls (init_crawler\<lparr>visited_urls := {''https://h/docs/''}\<rparr>) \<and>
                       should_follow ex_world link ''https://h/docs/'' = Inr True)
          (iterate_set ex_world
             (parse_links ex_world
                ''<a href=b><a href=c><a href=r.pdf><a href=/blog/y><a href=https://o/z><a href=#top>''
                ''https://h/docs/'')))"
proof -
  have h1: "\<not> has_file_ext ''https://h/docs/''"
    and h2: "str_contains ''text/html; charset=utf-8'' ''text/html''"
    and h3: "0 < depth ex_args"
    by simp_all
  have p: "fst (process_content ex_world ex_args ''https://h/docs/'' (''https://h/docs/'', 0, []) []
          (''<a href=b><a href=c><a href=r.pdf><a href=/blog/y><a href=https://o/z><a href=#top>'',
           200, ''text/html; charset=utf-8'', 83)
          (init_crawler\<lparr>visited_urls := {''https://h/docs/''}\<rparr>)) =
     Inr [(''https://h/docs/b'', 1, ''https://h/docs/''), (''https://h/docs/c'', 1, ''https://h/docs/''),
          (''https://h/docs/r.pdf'', 0, ''https://h/docs/'')]"
    by (simp add: process_content_continues[where parsed =
          "\<lparr>scheme = ''https'', netloc = ''h'', path = ''/docs/'', params = [], query = [], fragment = []\<rparr>"]
        ex_parse_links_docs iterate_set_def should_follow_def rstrip_def)
  from links_enqueued_by_kind[rule_format, OF h1 h2 h3 p]
  have c: "[(''https://h/docs/b'', 1, ''https://h/docs/''), (''https://h/docs/c'', 1, ''https://h/docs/''),
    (''https://h/docs/r.pdf'', 0, ''https://h/docs/'')] =
     [] @
     map (\<lambda>link. (link,
                  if \<exists>ext \<in> {''.pdf'', ''.doc'', ''.docx''}. sublist ext (lower link) then (0::int) else 0 + 1,
                  ''https://h/docs/''))
       (filter (\<lambda>link. link \<notin> visited_urls (init_crawler\<lparr>visited_urls := {''https://h/docs/''}\<rparr>) \<and>
                       should_follow ex_world link ''https://h/docs/'' = Inr True)
          (iterate_set ex_world
             (parse_links ex_world
                ''<a href=b><a href=c><a href=r.pdf><a href=/blog/y><a href=https://o/z><a href=#top>''
                ''https://h/docs/'')))"
    by (rule conjunct1)
  show ?thesis
    by (rule conjI h1 h2 h3 p c)+
qed

section \<open>Link extraction\<close>




section \<open>The politeness delay\<close>

text \<open>
  C8. The delay before a fetch is guarded by \<^verbatim>\<open>pages_crawled > 0\<close>, not by whether a request
  has been made. With the seeds \<^verbatim>\<open>ftp://h/x\<close> and \<^verbatim>\<open>https://h/docs/\<close> the first fetch returns no
  body, and the second fetch of the run follows with no sleep before it.
\<close>

theorem no_delay_after_failed_first_fetch:
  "trace (snd (run_steps ex_world ex_args [''ftp://h/x'', ''https://h/docs/''] 5)) =
     [Pop ''ftp://h/x'' 0 [], Robots_read ''ftp://h/robots.txt'', Add_visited ''ftp://h/x'',
      Get ''ftp://h/x'', Fetch_page ''ftp://h/x'' 0 False,
      Pop ''https://h/docs/'' 0 [], Robots_read ''https://h/robots.txt'',
      Add_visited ''https://h/docs/'', Get ''https://h/docs/'', Fetch_page ''https://h/docs/'' 0 True,
      Mkdir ''data/raw/20240101'', Write_file ''data/raw/20240101/h_httpshdocs.html'',
      Mkdir ''data/raw'', Append_file ''data/raw/index.jsonl'']"
  by (simp add: ex_ftp_run_5 ex_state_ftp_docs_def ex_state_ftp_def init_crawler_def)

section \<open>Persistence failures\<close>

text \<open>
  What holds of the two writes themselves. When the directory exists and the write of the
  content fails, \<^verbatim>\<open>save_raw\<close> returns the empty string and no content is recorded. When the
  write of the metadata fails, \<^verbatim>\<open>log_metadata\<close> returns and no line is recorded. When the
  directory exists, the loop body continues with the same queue whatever the outcome of
  the two writes.
\<close>

lemma failed_write_is_caught:
  "(urlparse w url = Inr parsed \<longrightarrow> (\<forall>p. fs_ok w (clock s) p) \<longrightarrow> (\<forall>p. \<not> fs_ok w (Suc (clock s)) p) \<longrightarrow>
      fst (save_raw w content url is_file s) = Inr [] \<and>
      files (snd (save_raw w content url is_file s)) = files s \<and>
      index_jsonl (snd (save_raw w content url is_file s)) = index_jsonl s) \<and>
   (\<not> fs_ok w (clock s) raw_dir \<or> \<not> fs_ok w (Suc (clock s)) index_file \<longrightarrow>
      index_jsonl (log_metadata w url status_code content_type saved_path d parent_url
                     content_length s) = index_jsonl s \<and>
      files (log_metadata w url status_code content_type saved_path d parent_url
               content_length s) = files s) \<and>
   (urlparse w url = Inr parsed \<longrightarrow> (\<forall>p. fs_ok w (clock s) p) \<longrightarrow>
      fst (process_content w a seed_url (url, d, parent_url) queue
             (content, status_code, content_type, content_length) s) =
        (if has_file_ext url \<or> \<not> str_contains content_type ''text/html'' \<or> \<not> d < depth a
         then Inr queue
         else enqueue_links w (visited_urls s) seed_url url d
                (iterate_set w (parse_links w content url)) queue))"
  using save_raw_write_fails[of w url parsed s content is_file]
    log_metadata_fails[of w s url status_code content_type saved_path d parent_url content_length]
    process_content_continues[of w url parsed s a seed_url d parent_url queue content status_code
      content_type content_length]
  by blast

lemma ex_no_mkdir_world_fields [simp]:
  "urlparse ex_no_mkdir_world = py_urlparse" "urljoin ex_no_mkdir_world = py_urljoin"
  "session_get ex_no_mkdir_world = ex_session_get" "robots_read ex_no_mkdir_world t u = None"
  "now_strftime ex_no_mkdir_world t = ''20240101''"
  "now_isoformat ex_no_mkdir_world t = ''2024-01-01T00:00:00''"
  "sha1_hexdigest ex_no_mkdir_world = ex_digest" "\<not> fs_ok ex_no_mkdir_world t p"
  by (simp_all add: ex_no_mkdir_world_def ex_world_def)

lemma ex_write_fail_world_fields [simp]:
  "urlparse ex_write_fail_world = py_urlparse" "urljoin ex_write_fail_world = py_urljoin"
  "find_all_a_href ex_write_fail_world = ex_find_all_a_href"
  "set_iter ex_write_fail_world links = links"
  "now_strftime ex_write_fail_world t = ''20240101''"
  "now_isoformat ex_write_fail_world t = ''2024-01-01T00:00:00''"
  "sha1_hexdigest ex_write_fail_world = ex_digest" "fs_ok ex_write_fail_world t p = (t \<noteq> 1)"
  by (simp_all add: ex_write_fail_world_def ex_world_def)

lemma ex_no_mkdir_run_1:
  "run_steps ex_no_mkdir_world ex_args [''https://h/docs/'', ''https://h/docs/c''] 1 =
     (Crawl_seed ''https://h/docs/'' [(''https://h/docs/'', 0, [])] [''https://h/docs/c''], init_crawler)"
  by simp

lemma ex_no_mkdir_run_2:
  "run_steps ex_no_mkdir_world ex_args [''https://h/docs/'', ''https://h/docs/c''] 2 =
     (Raised OSError,
      init_crawler\<lparr>visited_urls := {''https://h/docs/''},
        robots_cache := [''https://h'' \<mapsto> None], pages_crawled := 1,
        trace := [Pop ''https://h/docs/'' 0 [], Robots_read ''https://h/robots.txt'',
          Add_visited ''https://h/docs/'', Get ''https://h/docs/'',
          Fetch_page ''https://h/docs/'' 0 True, Mkdir ''data/raw/20240101'']\<rparr>)"
  by (simp add: run_steps_next[of 2 1] ex_no_mkdir_run_1 crawl_simps init_crawler_def)

text \<open>
  C9. An I/O error while the content is saved is not always recovered: the \<^verbatim>\<open>mkdir\<close> calls of
  \<^verbatim>\<open>save_raw\<close> stand before its \<^verbatim>\<open>try\<close> block, unlike the one of \<^verbatim>\<open>log_metadata\<close>. On a file system
  that refuses the directory, with the seeds \<^verbatim>\<open>https://h/docs/\<close> and \<^verbatim>\<open>https://h/docs/c\<close>, the
  \<^verbatim>\<open>OSError\<close> leaves \<^verbatim>\<open>save_raw\<close>, \<^verbatim>\<open>crawl_seed\<close> and \<^verbatim>\<open>run\<close> after the first page has been fetched,
  and the second seed is never started; \<^verbatim>\<open>log_metadata\<close> returns on the same file system. And
  when only the write of the content fails, nothing is stored but a metadata line with an
  empty \<^verbatim>\<open>saved_path\<close> is still appended.
\<close>

theorem mkdir_failure_aborts_run:
  "fst (run_steps ex_no_mkdir_world ex_args [''https://h/docs/'', ''https://h/docs/c''] 2) = Raised OSError \<and>
   fst (run_steps ex_no_mkdir_world ex_args [''https://h/docs/'', ''https://h/docs/c''] 3) = Raised OSError \<and>
   trace (snd (run_steps ex_no_mkdir_world ex_args [''https://h/docs/'', ''https://h/docs/c''] 3)) =
     [Pop ''https://h/docs/'' 0 [], Robots_read ''https://h/robots.txt'',
      Add_visited ''https://h/docs/'', Get ''https://h/docs/'',
      Fetch_page ''https://h/docs/'' 0 True, Mkdir ''data/raw/20240101''] \<and>
   fst (save_raw ex_no_mkdir_world ''c'' ''https://h/docs/'' False init_crawler) = Inl OSError \<and>
   trace (log_metadata ex_no_mkdir_world ''https://h/docs/'' 200 ''text/html'' [] 0 [] 1 init_crawler) =
     [Mkdir ''data/raw''] \<and>
   files (snd (process_content ex_write_fail_world ex_args ''https://h/docs/'' (''https://h/docs/'', 0, [])
                 [] (''c'', 200, ''text/html'', 1) init_crawler)) = Map.empty \<and>
   index_jsonl (snd (process_content ex_write_fail_world ex_args ''https://h/docs/''
                       (''https://h/docs/'', 0, []) [] (''c'', 200, ''text/html'', 1) init_crawler)) =
     [\<lparr>md_url = ''https://h/docs/'', md_status_code = 200, md_content_type = ''text/html'',
       md_saved_path = [], md_crawl_date = ''2024-01-01T00:00:00'', md_depth = 0,
       md_parent_url = [], md_content_length = 1\<rparr>]"
  by (simp add: run_steps_next[of 3 2] ex_no_mkdir_run_2 crawl_simps init_crawler_def)

end
